theory Spec2Isabelle
  imports Main "HOL-Library.AList" "HOL-Library.Char_ord" "HOL-Library.List_Lexorder"
begin

section \<open>Migration queue processor: embedding of the migrator service and the chaos policy\<close>

text \<open>
  The theory embeds \<^verbatim>\<open>app/services/migrator/service.py\<close> and
  \<^verbatim>\<open>app/services/policy/chaos.py\<close>. Everything these modules import from elsewhere
  (the storage client, the settings store, the security policy, the clock, \<^verbatim>\<open>uuid4\<close>)
  is a parameter: a record of operations on a world \<open>'w\<close> that is left abstract.
  Every call of a storage operation is written to a trace, so that what the code issues
  and in which order is part of what a function returns.
\<close>

subsection \<open>Exceptions, storage responses, outcomes\<close>

text \<open>
  \<^verbatim>\<open>botocore.exceptions.ClientError\<close> carries \<^verbatim>\<open>e.response["Error"]["Code"]\<close>, which
  \<^verbatim>\<open>.get\<close> reads as \<^verbatim>\<open>None\<close> when missing; every other exception is opaque. The second
  argument of both constructors is what \<^verbatim>\<open>str(e)\<close> returns.
\<close>

datatype exn = ClientError "string option" string | OtherException string

fun str_exn :: "exn \<Rightarrow> string" where
  "str_exn (ClientError code msg) = msg"
| "str_exn (OtherException msg) = msg"

text \<open>
  The response of \<^verbatim>\<open>head_object\<close>: a dictionary read with \<^verbatim>\<open>.get\<close>, so each entry may
  be missing. \<^verbatim>\<open>LastModified\<close> is a point in time, in microseconds.
\<close>

record head_response =
  ETag :: "string option"
  ContentLength :: "int option"
  LastModified :: "int option"

text \<open>The dictionary \<^verbatim>\<open>{"etag": ..., "size": ...}\<close> that \<^verbatim>\<open>_head_meta\<close> returns.\<close>

record object_meta =
  meta_etag :: string
  meta_size :: int

text \<open>The dictionaries returned by the copy and cleanup engines, tagged by \<^verbatim>\<open>"status"\<close>.\<close>

datatype outcome =
    Copied int string
  | Noop
  | MissingSource
  | Skipped string
  | Blocked string
  | Failed string
  | Deleted

datatype event =
    EvSleep int
  | EvEnsureBucket string
  | EvHead string string
  | EvGet string string
  | EvPut string string string
  | EvDelete string string

subsection \<open>The environment\<close>

text \<open>
  An endpoint name stands for the client and the bucket that \<^verbatim>\<open>client_for\<close> and
  \<^verbatim>\<open>get_bucket\<close> resolve it to. \<^verbatim>\<open>get_object_body\<close> is \<^verbatim>\<open>get_object\<close> followed by
  \<^verbatim>\<open>obj["Body"].read()\<close>. \<^verbatim>\<open>pause\<close> is \<^verbatim>\<open>time.sleep\<close>, its argument in milliseconds;
  \<^verbatim>\<open>clock_now\<close> is \<^verbatim>\<open>datetime.datetime.now(tz)\<close> in microseconds.
\<close>

record 'w env =
  settings_get_list :: "'w \<Rightarrow> string \<Rightarrow> string list"
  settings_get_int :: "'w \<Rightarrow> string \<Rightarrow> int option"
  settings_set_setting :: "string \<Rightarrow> string \<Rightarrow> 'w \<Rightarrow> 'w"
  is_encryption_enforced :: "'w \<Rightarrow> bool"
  endpoint_is_encrypted :: "'w \<Rightarrow> string \<Rightarrow> bool"
  ensure_bucket :: "string \<Rightarrow> 'w \<Rightarrow> (exn + unit) \<times> 'w"
  head_object :: "string \<Rightarrow> string \<Rightarrow> 'w \<Rightarrow> (exn + head_response) \<times> 'w"
  get_object_body :: "string \<Rightarrow> string \<Rightarrow> 'w \<Rightarrow> (exn + string) \<times> 'w"
  put_object :: "string \<Rightarrow> string \<Rightarrow> string \<Rightarrow> 'w \<Rightarrow> (exn + unit) \<times> 'w"
  delete_object :: "string \<Rightarrow> string \<Rightarrow> 'w \<Rightarrow> (exn + unit) \<times> 'w"
  pause :: "int \<Rightarrow> 'w \<Rightarrow> 'w"
  clock_now :: "'w \<Rightarrow> int"
  uuid4_hex :: "'w \<Rightarrow> string \<times> 'w"

record 'w st =
  world :: 'w
  trace :: "event list"

definition io_sleep :: "'w env \<Rightarrow> int \<Rightarrow> 'w st \<Rightarrow> 'w st" where
  "io_sleep E ms s = \<lparr>world = pause E ms (world s), trace = trace s @ [EvSleep ms]\<rparr>"

definition io_ensure_bucket :: "'w env \<Rightarrow> string \<Rightarrow> 'w st \<Rightarrow> (exn + unit) \<times> 'w st" where
  "io_ensure_bucket E ep s =
     (case ensure_bucket E ep (world s) of
        (r, w) \<Rightarrow> (r, \<lparr>world = w, trace = trace s @ [EvEnsureBucket ep]\<rparr>))"

definition io_head_object ::
  "'w env \<Rightarrow> string \<Rightarrow> string \<Rightarrow> 'w st \<Rightarrow> (exn + head_response) \<times> 'w st" where
  "io_head_object E ep key s =
     (case head_object E ep key (world s) of
        (r, w) \<Rightarrow> (r, \<lparr>world = w, trace = trace s @ [EvHead ep key]\<rparr>))"

definition io_get_object ::
  "'w env \<Rightarrow> string \<Rightarrow> string \<Rightarrow> 'w st \<Rightarrow> (exn + string) \<times> 'w st" where
  "io_get_object E ep key s =
     (case get_object_body E ep key (world s) of
        (r, w) \<Rightarrow> (r, \<lparr>world = w, trace = trace s @ [EvGet ep key]\<rparr>))"

definition io_put_object ::
  "'w env \<Rightarrow> string \<Rightarrow> string \<Rightarrow> string \<Rightarrow> 'w st \<Rightarrow> (exn + unit) \<times> 'w st" where
  "io_put_object E ep key body s =
     (case put_object E ep key body (world s) of
        (r, w) \<Rightarrow> (r, \<lparr>world = w, trace = trace s @ [EvPut ep key body]\<rparr>))"

definition io_delete_object ::
  "'w env \<Rightarrow> string \<Rightarrow> string \<Rightarrow> 'w st \<Rightarrow> (exn + unit) \<times> 'w st" where
  "io_delete_object E ep key s =
     (case delete_object E ep key (world s) of
        (r, w) \<Rightarrow> (r, \<lparr>world = w, trace = trace s @ [EvDelete ep key]\<rparr>))"

definition io_uuid4_hex :: "'w env \<Rightarrow> 'w st \<Rightarrow> string \<times> 'w st" where
  "io_uuid4_hex E s =
     (case uuid4_hex E (world s) of (tok, w) \<Rightarrow> (tok, \<lparr>world = w, trace = trace s\<rparr>))"

subsection \<open>\<^verbatim>\<open>policy/chaos.py\<close>\<close>

definition FAIL_KEY :: string where
  "FAIL_KEY = ''chaos_fail_endpoints''"

definition LATENCY_KEY :: string where
  "LATENCY_KEY = ''chaos_latency_ms''"

text \<open>\<^verbatim>\<open>sep.join(xs)\<close>.\<close>

fun join :: "string \<Rightarrow> string list \<Rightarrow> string" where
  "join sep [] = []"
| "join sep [x] = x"
| "join sep (x # y # ys) = x @ sep @ join sep (y # ys)"

text \<open>\<^verbatim>\<open>sorted(set(xs))\<close>: the distinct elements in ascending order.\<close>

definition sorted_set :: "string list \<Rightarrow> string list" where
  "sorted_set xs = sort (remdups xs)"

text \<open>\<^verbatim>\<open>str(ms)\<close> for an integer.\<close>

fun str_nat :: "nat \<Rightarrow> string" where
  "str_nat n =
     (if n < 10 then [''0123456789'' ! n]
      else str_nat (n div 10) @ [''0123456789'' ! (n mod 10)])"

declare str_nat.simps [simp del]

definition str_int :: "int \<Rightarrow> string" where
  "str_int i = (if i < 0 then CHR ''-'' # str_nat (nat (- i)) else str_nat (nat i))"

definition get_failed_endpoints :: "'w env \<Rightarrow> 'w \<Rightarrow> string list" where
  "get_failed_endpoints E w = settings_get_list E w FAIL_KEY"

definition fail_endpoint :: "'w env \<Rightarrow> string \<Rightarrow> 'w \<Rightarrow> string list \<times> 'w" where
  "fail_endpoint E name w =
     (let current = name # get_failed_endpoints E w
      in (sorted_set current,
          settings_set_setting E FAIL_KEY (join '','' (sorted_set current)) w))"

definition recover_endpoint :: "'w env \<Rightarrow> string \<Rightarrow> 'w \<Rightarrow> string list \<times> 'w" where
  "recover_endpoint E name w =
     (let current = get_failed_endpoints E w;
          current = (if name \<in> set current then removeAll name current else current)
      in (sorted_set current,
          settings_set_setting E FAIL_KEY (join '','' (sorted_set current)) w))"

definition clear_failures :: "'w env \<Rightarrow> 'w \<Rightarrow> string list \<times> 'w" where
  "clear_failures E w = ([], settings_set_setting E FAIL_KEY [] w)"

text \<open>\<^verbatim>\<open>settings.get_int(LATENCY_KEY) or 0\<close>: \<^verbatim>\<open>None\<close> and \<^verbatim>\<open>0\<close> are the falsy values.\<close>

definition get_latency :: "'w env \<Rightarrow> 'w \<Rightarrow> int" where
  "get_latency E w =
     (case settings_get_int E w LATENCY_KEY of
        None \<Rightarrow> 0
      | Some v \<Rightarrow> (if v = 0 then 0 else v))"

definition set_latency :: "'w env \<Rightarrow> int \<Rightarrow> 'w \<Rightarrow> int \<times> 'w" where
  "set_latency E ms w = (ms, settings_set_setting E LATENCY_KEY (str_int ms) w)"

subsection \<open>\<^verbatim>\<open>_head_meta\<close> and \<^verbatim>\<open>_cleanup_once\<close>\<close>

text \<open>\<^verbatim>\<open>s.strip('"')\<close>: every leading and every trailing double quote is removed.\<close>

definition is_quote :: "char \<Rightarrow> bool" where
  "is_quote c = (c = CHR 0x22)"

definition strip_quotes :: "string \<Rightarrow> string" where
  "strip_quotes xs = rev (dropWhile is_quote (rev (dropWhile is_quote xs)))"

definition not_found_code :: "string option \<Rightarrow> bool" where
  "not_found_code code =
     (case code of None \<Rightarrow> False | Some c \<Rightarrow> c \<in> set [''404'', ''NoSuchKey'', ''NotFound''])"

definition throttling_code :: "string option \<Rightarrow> bool" where
  "throttling_code code =
     (case code of
        None \<Rightarrow> False
      | Some c \<Rightarrow> c \<in> set [''429'', ''503'', ''Throttling'', ''TooManyRequests'', ''SlowDown''])"

definition head_meta ::
  "'w env \<Rightarrow> string \<Rightarrow> string \<Rightarrow> 'w st \<Rightarrow> (exn + object_meta option) \<times> 'w st" where
  "head_meta E ep key s =
     (case io_head_object E ep key s of
        (Inr r, s') \<Rightarrow>
          (Inr (Some \<lparr>meta_etag = strip_quotes (case ETag r of None \<Rightarrow> [] | Some t \<Rightarrow> t),
                      meta_size = (case ContentLength r of None \<Rightarrow> 0 | Some n \<Rightarrow> n)\<rparr>), s')
      | (Inl (ClientError code msg), s') \<Rightarrow>
          (if not_found_code code then (Inr None, s') else (Inl (ClientError code msg), s'))
      | (Inl (OtherException msg), s') \<Rightarrow> (Inl (OtherException msg), s'))"

definition cleanup_once :: "'w env \<Rightarrow> string \<Rightarrow> string \<Rightarrow> 'w st \<Rightarrow> (exn + outcome) \<times> 'w st" where
  "cleanup_once E key src s =
     (case io_delete_object E src key s of
        (Inr u, s') \<Rightarrow> (Inr Deleted, s')
      | (Inl (ClientError code msg), s') \<Rightarrow>
          (if not_found_code code then (Inr Noop, s') else (Inl (ClientError code msg), s'))
      | (Inl (OtherException msg), s') \<Rightarrow> (Inl (OtherException msg), s'))"

subsection \<open>\<^verbatim>\<open>_ensure_and_copy_once\<close>\<close>

definition max_retries :: nat where
  "max_retries = 3"

text \<open>The body of the \<^verbatim>\<open>try\<close> in the retry loop: GET, read, PUT, return \<^verbatim>\<open>copied\<close>.\<close>

definition try_copy ::
  "'w env \<Rightarrow> string \<Rightarrow> string \<Rightarrow> string \<Rightarrow> object_meta \<Rightarrow> 'w st \<Rightarrow> (exn + outcome) \<times> 'w st" where
  "try_copy E key src dst sm s =
     (case io_get_object E src key s of
        (Inl e, s1) \<Rightarrow> (Inl e, s1)
      | (Inr body, s1) \<Rightarrow>
          (case io_put_object E dst key body s1 of
             (Inl e, s2) \<Rightarrow> (Inl e, s2)
           | (Inr u, s2) \<Rightarrow>
               (case io_uuid4_hex E s2 of
                  (tok, s3) \<Rightarrow> (Inr (Copied (meta_size sm) tok), s3))))"

text \<open>
  \<^verbatim>\<open>for attempt in range(max_retries + 1)\<close>, as a recursion over the values of
  \<^verbatim>\<open>attempt\<close> still to come. The first equation is the statement after the loop.
  \<^verbatim>\<open>time.sleep(backoff)\<close> takes seconds.
\<close>

fun copy_loop ::
  "'w env \<Rightarrow> string \<Rightarrow> string \<Rightarrow> string \<Rightarrow> object_meta \<Rightarrow> nat list \<Rightarrow> int \<Rightarrow> 'w st
     \<Rightarrow> (exn + outcome) \<times> 'w st" where
  "copy_loop E key src dst sm [] backoff s = (Inr (Failed ''max_retries_exceeded''), s)"
| "copy_loop E key src dst sm (attempt # rest) backoff s =
     (case try_copy E key src dst sm s of
        (Inr r, s') \<Rightarrow> (Inr r, s')
      | (Inl (ClientError code msg), s') \<Rightarrow>
          (if throttling_code code then
             (if attempt < max_retries
              then copy_loop E key src dst sm rest (backoff * 2) (io_sleep E (1000 * backoff) s')
              else (Inl (ClientError code msg), s'))
           else (Inl (ClientError code msg), s'))
      | (Inl (OtherException msg), s') \<Rightarrow> (Inl (OtherException msg), s'))"

text \<open>
  The second HEAD of the source and the test on \<^verbatim>\<open>LastModified\<close>; \<^verbatim>\<open>except Exception: pass\<close>
  makes every exception of the block the answer "not growing".
\<close>

definition file_growing :: "'w env \<Rightarrow> string \<Rightarrow> string \<Rightarrow> 'w st \<Rightarrow> bool \<times> 'w st" where
  "file_growing E key src s =
     (case io_head_object E src key s of
        (Inl e, s') \<Rightarrow> (False, s')
      | (Inr head, s') \<Rightarrow>
          (case LastModified head of
             None \<Rightarrow> (False, s')
           | Some last_modified \<Rightarrow> (clock_now E (world s') - last_modified < 5000000, s')))"

text \<open>\<^verbatim>\<open>sm and dm and sm["etag"] == dm["etag"] and sm["size"] == dm["size"]\<close>.\<close>

definition same_object :: "object_meta option \<Rightarrow> object_meta option \<Rightarrow> bool" where
  "same_object sm dm =
     (case sm of
        None \<Rightarrow> False
      | Some a \<Rightarrow>
          (case dm of
             None \<Rightarrow> False
           | Some b \<Rightarrow> meta_etag a = meta_etag b \<and> meta_size a = meta_size b))"

text \<open>What \<^verbatim>\<open>_ensure_and_copy_once\<close> does once both HEADs have returned.\<close>

definition copy_after_heads ::
  "'w env \<Rightarrow> string \<Rightarrow> string \<Rightarrow> string \<Rightarrow> object_meta option \<Rightarrow> object_meta option \<Rightarrow> 'w st
     \<Rightarrow> (exn + outcome) \<times> 'w st" where
  "copy_after_heads E key src dst sm dm s =
     (if same_object sm dm then (Inr Noop, s)
      else
        (case sm of
           None \<Rightarrow> (if dm \<noteq> None then (Inr Noop, s) else (Inr MissingSource, s))
         | Some a \<Rightarrow>
             (if meta_size a = 0 then (Inr (Skipped ''empty_source''), s)
              else
                (case file_growing E key src s of
                   (True, s') \<Rightarrow> (Inr (Skipped ''file_growing''), s')
                 | (False, s') \<Rightarrow>
                     copy_loop E key src dst a [0..<max_retries + 1] 1 s'))))"

definition chaos_delay :: "'w env \<Rightarrow> 'w st \<Rightarrow> 'w st" where
  "chaos_delay E s =
     (let lat = get_latency E (world s) in if lat > 0 then io_sleep E lat s else s)"

definition ensure_and_copy_once ::
  "'w env \<Rightarrow> string \<Rightarrow> string \<Rightarrow> string \<Rightarrow> 'w st \<Rightarrow> (exn + outcome) \<times> 'w st" where
  "ensure_and_copy_once E key src dst s =
     (if is_encryption_enforced E (world s) \<and> \<not> endpoint_is_encrypted E (world s) dst
      then (Inr (Blocked ''destination_not_encrypted''), s)
      else
        (case io_ensure_bucket E src (chaos_delay E s) of
           (Inl e, s2) \<Rightarrow> (Inl e, s2)
         | (Inr u, s2) \<Rightarrow>
        (case io_ensure_bucket E dst s2 of
           (Inl e, s3) \<Rightarrow> (Inl e, s3)
         | (Inr u, s3) \<Rightarrow>
        (case head_meta E src key s3 of
           (Inl e, s4) \<Rightarrow> (Inl e, s4)
         | (Inr sm, s4) \<Rightarrow>
        (case head_meta E dst key s4 of
           (Inl e, s5) \<Rightarrow> (Inl e, s5)
         | (Inr dm, s5) \<Rightarrow> copy_after_heads E key src dst sm dm s5)))))"

subsection \<open>The task store, the metrics and the alerts\<close>

record task =
  task_id :: nat
  task_key :: string
  task_src :: string
  task_dst :: string
  task_status :: string
  task_attempts :: "int option"
  task_error :: string
  task_created_at :: int

record alert =
  alert_name :: string
  alert_severity :: string
  alert_message :: string
  alert_metadata :: "(string \<times> nat) list"

text \<open>
  The rows of \<^verbatim>\<open>MigrationTask\<close> and of \<^verbatim>\<open>FileMeta\<close> (key and version token), the counter
  \<^verbatim>\<open>migration_jobs_total\<close> by its label \<^verbatim>\<open>result\<close>, the gauge \<^verbatim>\<open>migration_queue_gauge\<close>
  by its label \<^verbatim>\<open>status\<close>, the alerts created so far, and the storage side.
  Database operations are taken not to fail.
\<close>

record 'w sys =
  tasks :: "task list"
  file_meta :: "(string \<times> string) list"
  jobs_total :: "string \<Rightarrow> nat"
  queue_gauge :: "string \<Rightarrow> nat option"
  alerts :: "alert list"
  io :: "'w st"

definition MAX_ATTEMPTS :: int where
  "MAX_ATTEMPTS = 5"

definition QUEUE_STATUSES :: "string list" where
  "QUEUE_STATUSES = [''queued'', ''running'', ''done'', ''failed'', ''cleanup'']"

text \<open>\<^verbatim>\<open>SELECT status, count(*) ... GROUP BY status\<close>.\<close>

definition count_status :: "task list \<Rightarrow> string \<Rightarrow> nat" where
  "count_status ts status = length (filter (\<lambda>t. task_status t = status) ts)"

definition count_by_status :: "task list \<Rightarrow> (string \<times> nat) list" where
  "count_by_status ts =
     map (\<lambda>status. (status, count_status ts status)) (remdups (map task_status ts))"

definition backlog_alert :: "nat \<Rightarrow> alert" where
  "backlog_alert queued =
     \<lparr>alert_name = ''migration_backlog'', alert_severity = ''warning'',
      alert_message = str_nat queued @ '' migration tasks queued'',
      alert_metadata = [(''queued'', queued)]\<rparr>"

text \<open>
  The dictionary \<^verbatim>\<open>counts\<close>: every known status at 0, then each row of the query
  written over it.
\<close>

definition queue_counts :: "task list \<Rightarrow> (string \<times> nat) list" where
  "queue_counts ts =
     fold (\<lambda>(status, count) d. AList.update status count d)
       (count_by_status ts) (map (\<lambda>status. (status, 0)) QUEUE_STATUSES)"

definition update_queue_metrics :: "'w sys \<Rightarrow> 'w sys" where
  "update_queue_metrics S =
     (let counts = queue_counts (tasks S);
          gauge = fold (\<lambda>(status, count) g. g(status \<mapsto> count)) counts (queue_gauge S);
          queued = (case map_of counts ''queued'' of None \<Rightarrow> 0 | Some n \<Rightarrow> n)
      in S\<lparr>queue_gauge := gauge,
           alerts := (if queued > 20 then alerts S @ [backlog_alert queued] else alerts S)\<rparr>)"

subsection \<open>\<^verbatim>\<open>process_queue_once\<close>\<close>

definition ready :: "task \<Rightarrow> bool" where
  "ready t = (task_status t \<in> set [''queued'', ''cleanup'', ''failed''])"

text \<open>\<^verbatim>\<open>ORDER BY created_at ASC ... first()\<close>; among equal times the earlier row.\<close>

fun oldest :: "task \<Rightarrow> task list \<Rightarrow> task" where
  "oldest t [] = t"
| "oldest t (u # us) =
     (if task_created_at u < task_created_at t then oldest u us else oldest t us)"

definition claim_next :: "task list \<Rightarrow> task option" where
  "claim_next ts = (case filter ready ts of [] \<Rightarrow> None | t # rest \<Rightarrow> Some (oldest t rest))"

definition save_task :: "task \<Rightarrow> task list \<Rightarrow> task list" where
  "save_task t ts = map (\<lambda>u. if task_id u = task_id t then t else u) ts"

definition delete_task :: "task \<Rightarrow> task list \<Rightarrow> task list" where
  "delete_task t ts = filter (\<lambda>u. task_id u \<noteq> task_id t) ts"

definition inc_jobs_total :: "string \<Rightarrow> 'w sys \<Rightarrow> 'w sys" where
  "inc_jobs_total result S = S\<lparr>jobs_total := (jobs_total S)(result := jobs_total S result + 1)\<rparr>"

text \<open>\<^verbatim>\<open>inner.query(FileMeta).filter_by(key=...).first()\<close> and the write to the row found.\<close>

fun set_version_token ::
  "string \<Rightarrow> string \<Rightarrow> (string \<times> string) list \<Rightarrow> (string \<times> string) list" where
  "set_version_token key tok [] = []"
| "set_version_token key tok ((k, v) # rows) =
     (if k = key then (k, tok) # rows else (k, v) # set_version_token key tok rows)"

text \<open>\<^verbatim>\<open>r["status"]\<close> and \<^verbatim>\<open>str(r)\<close> of an outcome dictionary.\<close>

fun outcome_status :: "outcome \<Rightarrow> string" where
  "outcome_status (Copied n tok) = ''copied''"
| "outcome_status Noop = ''noop''"
| "outcome_status MissingSource = ''missing_source''"
| "outcome_status (Skipped reason) = ''skipped''"
| "outcome_status (Blocked reason) = ''blocked''"
| "outcome_status (Failed err) = ''failed''"
| "outcome_status Deleted = ''deleted''"

definition py_quote :: "string \<Rightarrow> string" where
  "py_quote x = [CHR 0x27] @ x @ [CHR 0x27]"

definition py_entry :: "string \<Rightarrow> string \<Rightarrow> string" where
  "py_entry k v = py_quote k @ '': '' @ v"

fun str_outcome :: "outcome \<Rightarrow> string" where
  "str_outcome (Copied n tok) =
     ''{'' @ join '', '' [py_entry ''status'' (py_quote ''copied''), py_entry ''size'' (str_int n),
                         py_entry ''version_token'' (py_quote tok)] @ ''}''"
| "str_outcome (Skipped reason) =
     ''{'' @ join '', '' [py_entry ''status'' (py_quote ''skipped''),
                         py_entry ''reason'' (py_quote reason)] @ ''}''"
| "str_outcome (Blocked reason) =
     ''{'' @ join '', '' [py_entry ''status'' (py_quote ''blocked''),
                         py_entry ''reason'' (py_quote reason)] @ ''}''"
| "str_outcome (Failed err) =
     ''{'' @ join '', '' [py_entry ''status'' (py_quote ''failed''),
                         py_entry ''error'' (py_quote err)] @ ''}''"
| "str_outcome r = ''{'' @ py_entry ''status'' (py_quote (outcome_status r)) @ ''}''"

text \<open>
  The \<^verbatim>\<open>try\<close> of the copy phase: the task as the branch taken leaves it, and the
  counter, the \<^verbatim>\<open>FileMeta\<close> row and the storage side after it.
\<close>

definition copy_phase :: "'w env \<Rightarrow> task \<Rightarrow> 'w sys \<Rightarrow> task \<times> 'w sys" where
  "copy_phase E t S =
     (case ensure_and_copy_once E (task_key t) (task_src t) (task_dst t) (io S) of
        (Inr (Copied n tok), s') \<Rightarrow>
          (t\<lparr>task_status := ''done'', task_error := []\<rparr>,
           (inc_jobs_total ''copied'' (S\<lparr>io := s'\<rparr>))
             \<lparr>file_meta := set_version_token (task_key t) tok (file_meta S)\<rparr>)
      | (Inr Noop, s') \<Rightarrow>
          (t\<lparr>task_status := ''done'', task_error := []\<rparr>, inc_jobs_total ''noop'' (S\<lparr>io := s'\<rparr>))
      | (Inr MissingSource, s') \<Rightarrow>
          (t\<lparr>task_status := ''failed'', task_error := ''missing_source''\<rparr>,
           inc_jobs_total ''missing_source'' (S\<lparr>io := s'\<rparr>))
      | (Inr (Blocked reason), s') \<Rightarrow>
          (t\<lparr>task_status := ''failed'', task_error := reason\<rparr>,
           inc_jobs_total ''blocked'' (S\<lparr>io := s'\<rparr>))
      | (Inr r, s') \<Rightarrow>
          (t\<lparr>task_status := ''failed'', task_error := str_outcome r\<rparr>, S\<lparr>io := s'\<rparr>)
      | (Inl e, s') \<Rightarrow>
          (t\<lparr>task_status := ''failed'', task_error := str_exn e\<rparr>,
           inc_jobs_total ''error'' (S\<lparr>io := s'\<rparr>)))"

definition cleanup_phase :: "'w env \<Rightarrow> task \<Rightarrow> 'w sys \<Rightarrow> task \<times> 'w sys" where
  "cleanup_phase E t S =
     (case cleanup_once E (task_key t) (task_src t) (io S) of
        (Inr r, s') \<Rightarrow>
          (t\<lparr>task_status := ''done'', task_error := []\<rparr>,
           inc_jobs_total (outcome_status r) (S\<lparr>io := s'\<rparr>))
      | (Inl e, s') \<Rightarrow>
          (t\<lparr>task_status := ''failed'', task_error := str_exn e\<rparr>,
           inc_jobs_total ''cleanup_error'' (S\<lparr>io := s'\<rparr>)))"

text \<open>
  \<^verbatim>\<open>if t.status == "failed": ...\<close> followed by \<^verbatim>\<open>s.commit()\<close>. The block is written twice
  in the source; the two differ in the status given back to a task that is kept.
\<close>

definition settle :: "string \<Rightarrow> task \<Rightarrow> 'w sys \<Rightarrow> 'w sys" where
  "settle requeue t S =
     (if task_status t = ''failed'' then
        (let attempts = (case task_attempts t of
                           None \<Rightarrow> 0
                         | Some a \<Rightarrow> (if a = 0 then 0 else a)) + 1;
             t1 = t\<lparr>task_attempts := Some attempts\<rparr>
         in if attempts \<ge> MAX_ATTEMPTS
            then S\<lparr>tasks := delete_task t1 (tasks S)\<rparr>
            else S\<lparr>tasks := save_task (t1\<lparr>task_status := requeue\<rparr>) (tasks S)\<rparr>)
      else S\<lparr>tasks := save_task t (tasks S)\<rparr>)"

definition process_queue_once :: "'w env \<Rightarrow> 'w sys \<Rightarrow> bool \<times> 'w sys" where
  "process_queue_once E S =
     (case claim_next (tasks S) of
        None \<Rightarrow> (False, update_queue_metrics S)
      | Some t \<Rightarrow>
          (if task_status t \<in> set [''queued'', ''failed''] then
             (let t0 = t\<lparr>task_status := ''running''\<rparr>;
                  S0 = S\<lparr>tasks := save_task t0 (tasks S)\<rparr>
              in case copy_phase E t0 S0 of
                   (t', S') \<Rightarrow> (True, update_queue_metrics (settle ''queued'' t' S')))
           else if task_status t = ''cleanup'' then
             (case cleanup_phase E t S of
                (t', S') \<Rightarrow> (True, update_queue_metrics (settle ''cleanup'' t' S')))
           else (False, S)))"

subsection \<open>Notions the statements use\<close>

fun is_put :: "event \<Rightarrow> bool" where
  "is_put (EvPut ep key body) = True"
| "is_put ev = False"

fun is_copied :: "exn + outcome \<Rightarrow> bool" where
  "is_copied (Inr (Copied n tok)) = True"
| "is_copied r = False"

text \<open>
  A call of \<^verbatim>\<open>_ensure_and_copy_once\<close> from \<open>s\<close> gets as far as the two HEADs, and both
  return present metadata with the same etag and the same size.
\<close>

definition both_heads_equal :: "'w env \<Rightarrow> string \<Rightarrow> string \<Rightarrow> string \<Rightarrow> 'w st \<Rightarrow> bool" where
  "both_heads_equal E key src dst s =
     (\<not> (is_encryption_enforced E (world s) \<and> \<not> endpoint_is_encrypted E (world s) dst) \<and>
      (case io_ensure_bucket E src (chaos_delay E s) of
         (Inl e, s2) \<Rightarrow> False
       | (Inr u, s2) \<Rightarrow>
      (case io_ensure_bucket E dst s2 of
         (Inl e, s3) \<Rightarrow> False
       | (Inr u, s3) \<Rightarrow>
      (case head_meta E src key s3 of
         (Inl e, s4) \<Rightarrow> False
       | (Inr None, s4) \<Rightarrow> False
       | (Inr (Some a), s4) \<Rightarrow>
      (case head_meta E dst key s4 of
         (Inl e, s5) \<Rightarrow> False
       | (Inr None, s5) \<Rightarrow> False
       | (Inr (Some b), s5) \<Rightarrow> meta_etag a = meta_etag b \<and> meta_size a = meta_size b)))))"

text \<open>
  \<^verbatim>\<open>_ensure_and_copy_once\<close> called \<open>n\<close> times in a row on the same key and endpoints:
  what each call returned and the state it left.
\<close>

fun copy_runs ::
  "'w env \<Rightarrow> string \<Rightarrow> string \<Rightarrow> string \<Rightarrow> nat \<Rightarrow> 'w st \<Rightarrow> ((exn + outcome) \<times> 'w st) list" where
  "copy_runs E key src dst 0 s = []"
| "copy_runs E key src dst (Suc n) s =
     ensure_and_copy_once E key src dst s
       # copy_runs E key src dst n (snd (ensure_and_copy_once E key src dst s))"

text \<open>
  The tick that picks task \<open>t\<close> takes it through a failed path: in the cleanup phase
  \<^verbatim>\<open>_cleanup_once\<close> raises; in the copy phase \<^verbatim>\<open>_ensure_and_copy_once\<close> raises or returns
  anything but \<^verbatim>\<open>copied\<close> or \<^verbatim>\<open>noop\<close>.
\<close>

definition tick_fails :: "'w env \<Rightarrow> 'w sys \<Rightarrow> task \<Rightarrow> bool" where
  "tick_fails E S t =
     (if task_status t = ''cleanup''
      then (case fst (cleanup_once E (task_key t) (task_src t) (io S)) of
              Inl e \<Rightarrow> True
            | Inr r \<Rightarrow> False)
      else (case fst (ensure_and_copy_once E (task_key t) (task_src t) (task_dst t) (io S)) of
              Inl e \<Rightarrow> True
            | Inr r \<Rightarrow> outcome_status r \<noteq> ''copied'' \<and> outcome_status r \<noteq> ''noop''))"

subsection \<open>A scripted environment for concrete runs\<close>

text \<open>
  One instance of the environment, used where a statement is evaluated at a concrete
  input: the storage endpoints answer from a script, one reply for each call in the
  order of the calls; the settings are a key-value store of strings; sleeping moves the
  clock.
\<close>

datatype reply = Done | HeadReply head_response | BodyReply string | Raise exn

record sim =
  sim_replies :: "reply list"
  sim_clock :: int
  sim_enforced :: bool
  sim_encrypted :: "string list"
  sim_settings :: "(string \<times> string) list"

definition sim_unit :: "sim \<Rightarrow> (exn + unit) \<times> sim" where
  "sim_unit w =
     (case sim_replies w of
        [] \<Rightarrow> (Inr (), w)
      | Raise e # rest \<Rightarrow> (Inl e, w\<lparr>sim_replies := rest\<rparr>)
      | r # rest \<Rightarrow> (Inr (), w\<lparr>sim_replies := rest\<rparr>))"

definition sim_head :: "sim \<Rightarrow> (exn + head_response) \<times> sim" where
  "sim_head w =
     (case sim_replies w of
        [] \<Rightarrow> (Inl (OtherException ''no reply''), w)
      | HeadReply r # rest \<Rightarrow> (Inr r, w\<lparr>sim_replies := rest\<rparr>)
      | Raise e # rest \<Rightarrow> (Inl e, w\<lparr>sim_replies := rest\<rparr>)
      | r # rest \<Rightarrow> (Inl (OtherException ''no reply''), w\<lparr>sim_replies := rest\<rparr>))"

definition sim_body :: "sim \<Rightarrow> (exn + string) \<times> sim" where
  "sim_body w =
     (case sim_replies w of
        [] \<Rightarrow> (Inl (OtherException ''no reply''), w)
      | BodyReply b # rest \<Rightarrow> (Inr b, w\<lparr>sim_replies := rest\<rparr>)
      | Raise e # rest \<Rightarrow> (Inl e, w\<lparr>sim_replies := rest\<rparr>)
      | r # rest \<Rightarrow> (Inl (OtherException ''no reply''), w\<lparr>sim_replies := rest\<rparr>))"

fun split_on :: "char \<Rightarrow> string \<Rightarrow> string list" where
  "split_on c [] = [[]]"
| "split_on c (x # xs) =
     (case split_on c xs of
        [] \<Rightarrow> [[x]]
      | p # ps \<Rightarrow> (if x = c then [] # p # ps else (x # p) # ps))"

definition sim_get_list :: "sim \<Rightarrow> string \<Rightarrow> string list" where
  "sim_get_list w k =
     (case map_of (sim_settings w) k of
        None \<Rightarrow> []
      | Some v \<Rightarrow> filter (\<lambda>p. p \<noteq> []) (split_on CHR '','' v))"

definition sim_get_int :: "sim \<Rightarrow> string \<Rightarrow> int option" where
  "sim_get_int w k =
     (case map_of (sim_settings w) k of
        None \<Rightarrow> None
      | Some v \<Rightarrow> Some (foldl (\<lambda>n c. 10 * n + (of_char c - 48)) 0 v))"

definition sim_env :: "sim env" where
  "sim_env =
     \<lparr>settings_get_list = sim_get_list,
      settings_get_int = sim_get_int,
      settings_set_setting = (\<lambda>k v w. w\<lparr>sim_settings := AList.update k v (sim_settings w)\<rparr>),
      is_encryption_enforced = sim_enforced,
      endpoint_is_encrypted = (\<lambda>w ep. ep \<in> set (sim_encrypted w)),
      ensure_bucket = (\<lambda>ep. sim_unit),
      head_object = (\<lambda>ep key. sim_head),
      get_object_body = (\<lambda>ep key. sim_body),
      put_object = (\<lambda>ep key body. sim_unit),
      delete_object = (\<lambda>ep key. sim_unit),
      pause = (\<lambda>ms w. w\<lparr>sim_clock := sim_clock w + 1000 * ms\<rparr>),
      clock_now = sim_clock,
      uuid4_hex = (\<lambda>w. (''0123456789abcdef0123456789abcdef'', w))\<rparr>"

definition sim_world :: "reply list \<Rightarrow> sim" where
  "sim_world rs =
     \<lparr>sim_replies = rs, sim_clock = 1000000000, sim_enforced = False, sim_encrypted = [],
      sim_settings = []\<rparr>"

definition sim_start :: "sim \<Rightarrow> sim st" where
  "sim_start w = \<lparr>world = w, trace = []\<rparr>"

definition sim_at :: "reply list \<Rightarrow> event list \<Rightarrow> sim st" where
  "sim_at rs evs = \<lparr>world = sim_world rs, trace = evs\<rparr>"

definition sim_sys :: "task list \<Rightarrow> sim \<Rightarrow> sim sys" where
  "sim_sys ts w =
     \<lparr>tasks = ts, file_meta = [], jobs_total = (\<lambda>result. 0), queue_gauge = Map.empty,
      alerts = [], io = sim_start w\<rparr>"

definition not_found :: exn where
  "not_found = ClientError (Some ''404'') ''Not Found''"

definition slow_down :: exn where
  "slow_down = ClientError (Some ''SlowDown'') ''Please reduce your request rate.''"

definition head_reply :: "string \<Rightarrow> int \<Rightarrow> int \<Rightarrow> reply" where
  "head_reply e n lm =
     HeadReply \<lparr>ETag = Some e, ContentLength = Some n, LastModified = Some lm\<rparr>"

definition quoted :: "string \<Rightarrow> string" where
  "quoted x = [CHR 0x22] @ x @ [CHR 0x22]"

definition sim_task :: "nat \<Rightarrow> string \<Rightarrow> int option \<Rightarrow> task" where
  "sim_task n status attempts =
     \<lparr>task_id = n, task_key = ''a/b'', task_src = ''s1'', task_dst = ''s2'',
      task_status = status, task_attempts = attempts, task_error = [], task_created_at = int n\<rparr>"

lemmas io_defs =
  io_sleep_def io_ensure_bucket_def io_head_object_def io_get_object_def io_put_object_def
  io_delete_object_def io_uuid4_hex_def

lemmas sim_defs =
  sim_env_def sim_world_def sim_start_def sim_sys_def sim_unit_def sim_head_def sim_body_def
  sim_get_list_def sim_get_int_def not_found_def slow_down_def sim_task_def head_reply_def
  quoted_def

section \<open>The metadata probe, the cleanup engine and the chaos settings\<close>

lemma strip_quotes_ends:
  "strip_quotes t = [] \<or> (\<not> is_quote (hd (strip_quotes t)) \<and> \<not> is_quote (last (strip_quotes t)))"
proof (cases "strip_quotes t = []")
  case True
  then show ?thesis by simp
next
  case False
  define ys where "ys = dropWhile is_quote t"
  define zs where "zs = dropWhile is_quote (rev ys)"
  have s: "strip_quotes t = rev zs" by (simp add: strip_quotes_def ys_def zs_def)
  with False have zs: "zs \<noteq> []" by simp
  then have "\<not> is_quote (hd zs)" unfolding zs_def by (rule hd_dropWhile)
  then have l: "\<not> is_quote (last (strip_quotes t))" using zs by (simp add: s last_rev)
  from zs have ysne: "ys \<noteq> []" by (auto simp: zs_def)
  have "rev ys = takeWhile is_quote (rev ys) @ zs" by (simp add: zs_def)
  then have "ys = rev zs @ rev (takeWhile is_quote (rev ys))"
    by (metis rev_append rev_rev_ident)
  then have "hd ys = hd (rev zs)" using zs by (metis hd_append2 rev_is_Nil_conv)
  moreover have "\<not> is_quote (hd ys)" using ysne unfolding ys_def by (rule hd_dropWhile)
  ultimately show ?thesis using l s by simp
qed

lemma strip_quotes_decomp:
  "\<exists>p q. t = p @ strip_quotes t @ q \<and> (\<forall>c\<in>set p. is_quote c) \<and> (\<forall>c\<in>set q. is_quote c)"
proof -
  define ys where "ys = dropWhile is_quote t"
  define zs where "zs = dropWhile is_quote (rev ys)"
  have s: "strip_quotes t = rev zs" by (simp add: strip_quotes_def ys_def zs_def)
  have "rev ys = takeWhile is_quote (rev ys) @ zs" by (simp add: zs_def)
  then have "ys = rev zs @ rev (takeWhile is_quote (rev ys))"
    by (metis rev_append rev_rev_ident)
  moreover have "t = takeWhile is_quote t @ ys" by (simp add: ys_def)
  ultimately have "t = takeWhile is_quote t @ strip_quotes t @ rev (takeWhile is_quote (rev ys))"
    using s by simp
  moreover have "\<forall>c\<in>set (takeWhile is_quote t). is_quote c" by (auto dest: set_takeWhileD)
  moreover have "\<forall>c\<in>set (rev (takeWhile is_quote (rev ys))). is_quote c"
    by (auto dest: set_takeWhileD)
  ultimately show ?thesis by blast
qed

text \<open>
  C4, as the claim states it, fails: the probe returns a record with \<^verbatim>\<open>etag\<close> and
  \<^verbatim>\<open>size\<close> only. Two HEAD responses that differ in \<^verbatim>\<open>LastModified\<close> and in nothing else
  give the same metadata, so the value returned does not hold \<^verbatim>\<open>last_modified\<close>.
\<close>

theorem head_meta_last_modified_counterexample:
  "fst (head_meta sim_env ''s1'' ''a/b''
          (sim_start (sim_world [head_reply (quoted ''E1'') 100 1000]))) =
     Inr (Some \<lparr>meta_etag = ''E1'', meta_size = 100\<rparr>)
   \<and> fst (head_meta sim_env ''s1'' ''a/b''
          (sim_start (sim_world [head_reply (quoted ''E1'') 100 2000]))) =
     Inr (Some \<lparr>meta_etag = ''E1'', meta_size = 100\<rparr>)
   \<and> head_reply (quoted ''E1'') 100 1000 \<noteq> head_reply (quoted ''E1'') 100 2000"
  by (simp add: head_meta_def strip_quotes_def is_quote_def io_defs sim_defs)

text \<open>
  C4, amended: for every endpoint and key, when \<^verbatim>\<open>head_object\<close> answers, the probe returns
  the record of \<^verbatim>\<open>etag\<close> and \<^verbatim>\<open>size\<close> (a missing \<^verbatim>\<open>ETag\<close> read as the empty string, a
  missing \<^verbatim>\<open>ContentLength\<close> as 0), the etag without its leading and trailing double
  quotes: what is left neither starts nor ends with a quote, and what was removed on
  either side is quotes only. On a client error with code 404, NoSuchKey or NotFound
  it returns absent and raises nothing. Every other error is raised again, unchanged.
\<close>

theorem head_meta_probe:
  "(io_head_object E ep key s = (Inr r, s') \<longrightarrow>
      head_meta E ep key s =
        (Inr (Some \<lparr>meta_etag = strip_quotes (case ETag r of None \<Rightarrow> [] | Some t \<Rightarrow> t),
                    meta_size = (case ContentLength r of None \<Rightarrow> 0 | Some n \<Rightarrow> n)\<rparr>), s'))
   \<and> (strip_quotes t = [] \<or>
        (hd (strip_quotes t) \<noteq> CHR 0x22 \<and> last (strip_quotes t) \<noteq> CHR 0x22))
   \<and> (\<exists>p q. t = p @ strip_quotes t @ q \<and> set p \<subseteq> {CHR 0x22} \<and> set q \<subseteq> {CHR 0x22})
   \<and> (io_head_object E ep key s = (Inl (ClientError (Some code) msg), s')
        \<and> code \<in> {''404'', ''NoSuchKey'', ''NotFound''} \<longrightarrow>
      head_meta E ep key s = (Inr None, s'))
   \<and> (io_head_object E ep key s = (Inl e, s')
        \<and> (\<forall>c m. e = ClientError (Some c) m \<longrightarrow> c \<notin> {''404'', ''NoSuchKey'', ''NotFound''}) \<longrightarrow>
      head_meta E ep key s = (Inl e, s'))"
proof -
  have "strip_quotes t = [] \<or>
        (hd (strip_quotes t) \<noteq> CHR 0x22 \<and> last (strip_quotes t) \<noteq> CHR 0x22)"
    using strip_quotes_ends[of t] by (simp add: is_quote_def)
  moreover have "\<exists>p q. t = p @ strip_quotes t @ q \<and> set p \<subseteq> {CHR 0x22} \<and> set q \<subseteq> {CHR 0x22}"
    using strip_quotes_decomp[of t] by (auto simp: is_quote_def subset_iff)
  moreover have "io_head_object E ep key s = (Inr r, s') \<longrightarrow>
      head_meta E ep key s =
        (Inr (Some \<lparr>meta_etag = strip_quotes (case ETag r of None \<Rightarrow> [] | Some t \<Rightarrow> t),
                    meta_size = (case ContentLength r of None \<Rightarrow> 0 | Some n \<Rightarrow> n)\<rparr>), s')"
    by (simp add: head_meta_def)
  moreover have "io_head_object E ep key s = (Inl (ClientError (Some code) msg), s')
        \<and> code \<in> {''404'', ''NoSuchKey'', ''NotFound''} \<longrightarrow>
      head_meta E ep key s = (Inr None, s')"
    by (auto simp: head_meta_def not_found_code_def)
  moreover have "io_head_object E ep key s = (Inl e, s')
        \<and> (\<forall>c m. e = ClientError (Some c) m \<longrightarrow> c \<notin> {''404'', ''NoSuchKey'', ''NotFound''}) \<longrightarrow>
      head_meta E ep key s = (Inl e, s')"
    by (auto simp: head_meta_def not_found_code_def split: exn.splits option.splits)
  ultimately show ?thesis by blast
qed

theorem head_meta_probe_witness:
  "head_meta sim_env ''s1'' ''a/b'' (sim_start (sim_world [head_reply (quoted ''E1'') 100 0])) =
     (Inr (Some \<lparr>meta_etag = ''E1'', meta_size = 100\<rparr>),
      \<lparr>world = sim_world [], trace = [EvHead ''s1'' ''a/b'']\<rparr>)
   \<and> head_meta sim_env ''s1'' ''a/b'' (sim_start (sim_world [Raise not_found])) =
     (Inr None, \<lparr>world = sim_world [], trace = [EvHead ''s1'' ''a/b'']\<rparr>)
   \<and> head_meta sim_env ''s1'' ''a/b'' (sim_start (sim_world [Raise slow_down])) =
     (Inl slow_down, \<lparr>world = sim_world [], trace = [EvHead ''s1'' ''a/b'']\<rparr>)"
  using
    head_meta_probe[where E = sim_env and ep = "''s1''" and key = "''a/b''"
      and s = "sim_start (sim_world [head_reply (quoted ''E1'') 100 0])"
      and r = "\<lparr>ETag = Some (quoted ''E1''), ContentLength = Some 100, LastModified = Some 0\<rparr>"
      and s' = "\<lparr>world = sim_world [], trace = [EvHead ''s1'' ''a/b'']\<rparr>"]
    head_meta_probe[where E = sim_env and ep = "''s1''" and key = "''a/b''"
      and s = "sim_start (sim_world [Raise not_found])"
      and code = "''404''" and msg = "''Not Found''"
      and s' = "\<lparr>world = sim_world [], trace = [EvHead ''s1'' ''a/b'']\<rparr>"]
    head_meta_probe[where E = sim_env and ep = "''s1''" and key = "''a/b''"
      and s = "sim_start (sim_world [Raise slow_down])"
      and e = slow_down
      and s' = "\<lparr>world = sim_world [], trace = [EvHead ''s1'' ''a/b'']\<rparr>"]
  by (simp add: io_defs sim_defs strip_quotes_def is_quote_def)

text \<open>
  C8: \<^verbatim>\<open>cleanup_once\<close> returns \<^verbatim>\<open>deleted\<close> when the DELETE succeeds; when the DELETE is
  answered by a client error with code 404, NoSuchKey or NotFound it returns \<^verbatim>\<open>noop\<close>;
  every other error is raised again, unchanged. So a DELETE that succeeds followed by
  calls on the object now absent gives \<^verbatim>\<open>deleted\<close> and then \<^verbatim>\<open>noop\<close>. Each call issues the
  one DELETE and nothing else.
\<close>

theorem cleanup_once_idempotent:
  "(io_delete_object E src key s = (Inr u, sa) \<longrightarrow>
      cleanup_once E key src s = (Inr Deleted, sa)
      \<and> (io_delete_object E src key sa = (Inl (ClientError (Some code) msg), sb)
           \<and> code \<in> {''404'', ''NoSuchKey'', ''NotFound''} \<longrightarrow>
         cleanup_once E key src sa = (Inr Noop, sb)))
   \<and> (io_delete_object E src key s = (Inl (ClientError (Some code) msg), s')
        \<and> code \<in> {''404'', ''NoSuchKey'', ''NotFound''} \<longrightarrow>
      cleanup_once E key src s = (Inr Noop, s'))
   \<and> (io_delete_object E src key s = (Inl e, s')
        \<and> (\<forall>c m. e = ClientError (Some c) m \<longrightarrow> c \<notin> {''404'', ''NoSuchKey'', ''NotFound''}) \<longrightarrow>
      cleanup_once E key src s = (Inl e, s'))
   \<and> trace (snd (cleanup_once E key src s)) = trace s @ [EvDelete src key]"
  by (auto simp: cleanup_once_def not_found_code_def io_delete_object_def
           split: exn.splits option.splits prod.splits sum.splits)

theorem cleanup_once_idempotent_witness:
  "cleanup_once sim_env ''a/b'' ''s1'' (sim_start (sim_world [Done, Raise not_found])) =
     (Inr Deleted, \<lparr>world = sim_world [Raise not_found], trace = [EvDelete ''s1'' ''a/b'']\<rparr>)
   \<and> cleanup_once sim_env ''a/b'' ''s1''
       \<lparr>world = sim_world [Raise not_found], trace = [EvDelete ''s1'' ''a/b'']\<rparr> =
     (Inr Noop,
      \<lparr>world = sim_world [], trace = [EvDelete ''s1'' ''a/b'', EvDelete ''s1'' ''a/b'']\<rparr>)
   \<and> cleanup_once sim_env ''a/b'' ''s1'' (sim_start (sim_world [Raise slow_down])) =
     (Inl slow_down, \<lparr>world = sim_world [], trace = [EvDelete ''s1'' ''a/b'']\<rparr>)"
  using
    cleanup_once_idempotent[where E = sim_env and src = "''s1''" and key = "''a/b''"
      and s = "sim_start (sim_world [Done, Raise not_found])" and u = "()"
      and sa = "\<lparr>world = sim_world [Raise not_found], trace = [EvDelete ''s1'' ''a/b'']\<rparr>"
      and code = "''404''" and msg = "''Not Found''"
      and sb = "\<lparr>world = sim_world [],
                   trace = [EvDelete ''s1'' ''a/b'', EvDelete ''s1'' ''a/b'']\<rparr>"]
    cleanup_once_idempotent[where E = sim_env and src = "''s1''" and key = "''a/b''"
      and s = "sim_start (sim_world [Raise slow_down])" and e = slow_down
      and s' = "\<lparr>world = sim_world [], trace = [EvDelete ''s1'' ''a/b'']\<rparr>"]
  by (simp add: io_defs sim_defs)

lemma sorted_set_props:
  "sorted (sorted_set xs)" "distinct (sorted_set xs)" "set (sorted_set xs) = set xs"
  by (simp_all add: sorted_set_def)

text \<open>
  C9: \<^verbatim>\<open>fail_endpoint(name)\<close> returns the previous set with \<^verbatim>\<open>name\<close> added, as a list in
  ascending order without repetition, and stores the comma-joined string of that list
  under \<^verbatim>\<open>chaos_fail_endpoints\<close>. \<^verbatim>\<open>recover_endpoint(name)\<close> returns, and stores in the same
  way, the previous set without \<^verbatim>\<open>name\<close>. \<^verbatim>\<open>get_latency\<close> is 0 when the settings store has
  no integer (or 0) under \<^verbatim>\<open>chaos_latency_ms\<close>, and the stored integer otherwise.
  \<^verbatim>\<open>set_latency(ms)\<close> returns \<^verbatim>\<open>ms\<close>.
\<close>

theorem chaos_settings:
  "(fail_endpoint E name w = (xs, w') \<longrightarrow>
      sorted xs \<and> distinct xs \<and> set xs = insert name (set (get_failed_endpoints E w))
      \<and> w' = settings_set_setting E ''chaos_fail_endpoints'' (join '','' xs) w)
   \<and> (recover_endpoint E name w = (ys, w'') \<longrightarrow>
      sorted ys \<and> distinct ys \<and> set ys = set (get_failed_endpoints E w) - {name}
      \<and> name \<notin> set ys
      \<and> w'' = settings_set_setting E ''chaos_fail_endpoints'' (join '','' ys) w)
   \<and> (settings_get_int E w ''chaos_latency_ms'' = None
        \<or> settings_get_int E w ''chaos_latency_ms'' = Some 0 \<longrightarrow> get_latency E w = 0)
   \<and> (settings_get_int E w ''chaos_latency_ms'' = Some v \<longrightarrow> get_latency E w = v)
   \<and> fst (set_latency E ms w) = ms"
  by (auto simp: fail_endpoint_def recover_endpoint_def get_latency_def set_latency_def Let_def
                 sorted_set_props FAIL_KEY_def LATENCY_KEY_def)

theorem chaos_settings_witness:
  "fail_endpoint sim_env ''s1''
       (sim_world []\<lparr>sim_settings := [(''chaos_fail_endpoints'', ''s2,a'')]\<rparr>) =
     ([''a'', ''s1'', ''s2''],
      sim_world []\<lparr>sim_settings := [(''chaos_fail_endpoints'', ''a,s1,s2'')]\<rparr>)
   \<and> sorted [''a'', ''s1'', ''s2'']
   \<and> recover_endpoint sim_env ''s2''
       (sim_world []\<lparr>sim_settings := [(''chaos_fail_endpoints'', ''s2,a'')]\<rparr>) =
     ([''a''], sim_world []\<lparr>sim_settings := [(''chaos_fail_endpoints'', ''a'')]\<rparr>)
   \<and> ''s2'' \<notin> set [''a'']
   \<and> settings_get_int sim_env (sim_world []) ''chaos_latency_ms'' = None
   \<and> get_latency sim_env (sim_world []) = 0
   \<and> get_latency sim_env (sim_world []\<lparr>sim_settings := [(''chaos_latency_ms'', ''250'')]\<rparr>) = 250
   \<and> fst (set_latency sim_env 250 (sim_world [])) = 250"
proof -
  define w0 where "w0 = sim_world []\<lparr>sim_settings := [(''chaos_fail_endpoints'', ''s2,a'')]\<rparr>"
  define w1 where "w1 = sim_world []\<lparr>sim_settings := [(''chaos_latency_ms'', ''250'')]\<rparr>"
  have a: "fail_endpoint sim_env ''s1'' w0 =
     ([''a'', ''s1'', ''s2''],
      sim_world []\<lparr>sim_settings := [(''chaos_fail_endpoints'', ''a,s1,s2'')]\<rparr>)"
    by (simp add: w0_def fail_endpoint_def get_failed_endpoints_def sorted_set_def FAIL_KEY_def
          sim_defs)
  have b: "recover_endpoint sim_env ''s2'' w0 =
     ([''a''], sim_world []\<lparr>sim_settings := [(''chaos_fail_endpoints'', ''a'')]\<rparr>)"
    by (simp add: w0_def recover_endpoint_def get_failed_endpoints_def sorted_set_def
          FAIL_KEY_def sim_defs)
  have c: "settings_get_int sim_env (sim_world []) ''chaos_latency_ms'' = None"
    by (simp add: sim_defs)
  have d: "settings_get_int sim_env w1 ''chaos_latency_ms'' = Some 250"
    by (simp add: w1_def sim_defs)
  from chaos_settings[where E = sim_env and name = "''s1''" and w = w0
      and xs = "[''a'', ''s1'', ''s2'']"
      and w' = "sim_world []\<lparr>sim_settings := [(''chaos_fail_endpoints'', ''a,s1,s2'')]\<rparr>"] a
  have a': "sorted [''a'', ''s1'', ''s2'']"
    by blast
  from chaos_settings[where E = sim_env and name = "''s2''" and w = w0 and ys = "[''a'']"
      and w'' = "sim_world []\<lparr>sim_settings := [(''chaos_fail_endpoints'', ''a'')]\<rparr>"] b
  have b': "''s2'' \<notin> set [''a'']"
    by blast
  from chaos_settings[where E = sim_env and w = "sim_world []" and ms = 250] c
  have c': "get_latency sim_env (sim_world []) = 0
      \<and> fst (set_latency sim_env 250 (sim_world [])) = 250"
    by blast
  from chaos_settings[where E = sim_env and w = w1 and v = 250] d
  have d': "get_latency sim_env w1 = 250"
    by blast
  from a a' b b' c c' d' show ?thesis
    unfolding w0_def w1_def by blast
qed

section \<open>The copy engine: paths and traces\<close>

lemma head_meta_trace:
  "head_meta E ep key s = (r, s') \<Longrightarrow> trace s' = trace s @ [EvHead ep key]"
  by (auto simp: head_meta_def io_head_object_def split: prod.splits sum.splits exn.splits if_splits)

lemma io_ensure_bucket_trace:
  "io_ensure_bucket E ep s = (r, s') \<Longrightarrow> trace s' = trace s @ [EvEnsureBucket ep]"
  by (auto simp: io_ensure_bucket_def split: prod.splits)

lemma io_head_object_trace:
  "io_head_object E ep key s = (r, s') \<Longrightarrow> trace s' = trace s @ [EvHead ep key]"
  by (auto simp: io_head_object_def split: prod.splits)

lemma chaos_delay_trace:
  "trace (chaos_delay E s) =
     trace s @ (if get_latency E (world s) > 0 then [EvSleep (get_latency E (world s))] else [])"
  by (simp add: chaos_delay_def io_sleep_def Let_def)

lemma copy_reaches_heads:
  assumes "\<not> (is_encryption_enforced E (world s) \<and> \<not> endpoint_is_encrypted E (world s) dst)"
    and "io_ensure_bucket E src (chaos_delay E s) = (Inr u2, s2)"
    and "io_ensure_bucket E dst s2 = (Inr u3, s3)"
    and "head_meta E src key s3 = (Inr sm, s4)"
    and "head_meta E dst key s4 = (Inr dm, s5)"
  shows "ensure_and_copy_once E key src dst s = copy_after_heads E key src dst sm dm s5"
    and "trace s5 = trace (chaos_delay E s) @
           [EvEnsureBucket src, EvEnsureBucket dst, EvHead src key, EvHead dst key]"
  using assms
  by (auto simp: ensure_and_copy_once_def dest!: head_meta_trace io_ensure_bucket_trace)

lemma copy_blocked:
  "is_encryption_enforced E (world s) \<Longrightarrow> \<not> endpoint_is_encrypted E (world s) dst \<Longrightarrow>
   ensure_and_copy_once E key src dst s = (Inr (Blocked ''destination_not_encrypted''), s)"
  by (simp add: ensure_and_copy_once_def)

lemma try_copy_result:
  "try_copy E key src dst sm s = (Inr r, s') \<Longrightarrow> \<exists>tok. r = Copied (meta_size sm) tok"
  by (auto simp: try_copy_def split: prod.splits sum.splits)

lemma copy_loop_result:
  "copy_loop E key src dst sm as b s = (Inr r, s') \<Longrightarrow>
     (\<exists>tok. r = Copied (meta_size sm) tok) \<or> (r = Failed ''max_retries_exceeded'' \<and> (\<forall>a\<in>set as. a < max_retries))"
proof (induction as arbitrary: b s)
  case Nil
  then show ?case by simp
next
  case (Cons a as)
  then show ?case
    by (auto split: prod.splits sum.splits exn.splits if_splits dest: try_copy_result)
qed

lemma copy_loop_never_failed:
  "fst (copy_loop E key src dst sm [0..<max_retries + 1] b s) \<noteq> Inr (Failed err)"
proof
  assume a: "fst (copy_loop E key src dst sm [0..<max_retries + 1] b s) = Inr (Failed err)"
  then obtain s' where "copy_loop E key src dst sm [0..<max_retries + 1] b s = (Inr (Failed err), s')"
    by (metis prod.collapse)
  from copy_loop_result[OF this] have "\<forall>a\<in>set [0..<max_retries + 1]. a < max_retries" by auto
  then have "max_retries < max_retries" by simp
  then show False by simp
qed

section \<open>The queue processor and the observer\<close>

lemma oldest_mem: "oldest t us \<in> set (t # us)"
  by (induction us arbitrary: t) auto

lemma claim_next_ready:
  assumes "claim_next ts = Some t"
  shows "ready t" and "t \<in> set ts"
proof -
  from assms obtain u us where f: "filter ready ts = u # us" and t: "t = oldest u us"
    by (auto simp: claim_next_def split: list.splits)
  have "t \<in> set (filter ready ts)" using oldest_mem[of u us] f t by simp
  then show "ready t" and "t \<in> set ts" by auto
qed

lemma update_queue_metrics_frame [simp]:
  "tasks (update_queue_metrics S) = tasks S"
  "jobs_total (update_queue_metrics S) = jobs_total S"
  "file_meta (update_queue_metrics S) = file_meta S"
  "io (update_queue_metrics S) = io S"
  by (simp_all add: update_queue_metrics_def Let_def)

lemma map_of_fold_update:
  "map_of (fold (\<lambda>(k, v) d. AList.update k v d) rows d) = map_of d ++ map_of (rev rows)"
proof (induction rows arbitrary: d)
  case Nil
  then show ?case by simp
next
  case (Cons r rows)
  obtain k v where r: "r = (k, v)" by (cases r)
  show ?case
    by (simp add: r Cons.IH update_conv' map_add_upd_left flip: map_add_assoc)
      (simp add: map_add_def fun_eq_iff split: option.splits)
qed

lemma fold_upd_map_of:
  "fold (\<lambda>(k, v) g. g(k \<mapsto> v)) rows g = g ++ map_of (rev rows)"
proof (induction rows arbitrary: g)
  case Nil
  then show ?case by simp
next
  case (Cons r rows)
  obtain k v where r: "r = (k, v)" by (cases r)
  have "fold (\<lambda>(k, v) g. g(k \<mapsto> v)) (r # rows) g =
          fold (\<lambda>(k, v) g. g(k \<mapsto> v)) rows (g(k \<mapsto> v))"
    by (simp add: r)
  also have "\<dots> = g(k \<mapsto> v) ++ map_of (rev rows)"
    by (rule Cons.IH)
  also have "\<dots> = g ++ map_of (rev (r # rows))"
    by (simp add: r map_add_def fun_eq_iff split: option.splits)
  finally show ?case .
qed

lemma distinct_fold_update:
  "distinct (map fst d) \<Longrightarrow> distinct (map fst (fold (\<lambda>(k, v) d. AList.update k v d) rows d))"
  by (induction rows arbitrary: d) (auto simp: distinct_update)

lemma map_of_rev_distinct:
  "distinct (map fst xs) \<Longrightarrow> map_of (rev xs) = map_of xs"
  by (metis distinct_rev map_of_inject_set rev_map set_rev)

lemma map_of_count_by_status:
  "map_of (count_by_status ts) status =
     (if status \<in> task_status ` set ts then Some (count_status ts status) else None)"
  by (simp add: count_by_status_def map_of_map_restrict restrict_map_def)

lemma count_status_0: "status \<notin> task_status ` set ts \<Longrightarrow> count_status ts status = 0"
  by (auto simp: count_status_def filter_empty_conv)

lemma distinct_count_by_status: "distinct (map fst (count_by_status ts))"
  by (simp add: count_by_status_def comp_def)

lemma map_of_counts:
  "map_of (queue_counts ts) status =
     (if status \<in> set QUEUE_STATUSES \<or> status \<in> task_status ` set ts
      then Some (count_status ts status) else None)"
proof -
  have "map_of (map (\<lambda>status. (status, 0::nat)) QUEUE_STATUSES) status =
          (if status \<in> set QUEUE_STATUSES then Some 0 else None)"
    by (simp add: map_of_map_restrict restrict_map_def)
  then show ?thesis
    by (auto simp: queue_counts_def map_of_fold_update map_of_rev_distinct distinct_count_by_status
          map_of_count_by_status map_add_def count_status_0)
qed

lemma distinct_counts: "distinct (map fst (queue_counts ts))"
  unfolding queue_counts_def
  by (rule distinct_fold_update) (simp add: QUEUE_STATUSES_def comp_def)

lemma update_queue_metrics_gauge:
  "queue_gauge (update_queue_metrics S) status =
     (if status \<in> set QUEUE_STATUSES \<or> status \<in> task_status ` set (tasks S)
      then Some (count_status (tasks S) status) else queue_gauge S status)"
  by (simp add: update_queue_metrics_def Let_def fold_upd_map_of
        map_of_rev_distinct distinct_counts map_add_def map_of_counts)

lemma queued_known: "''queued'' \<in> set QUEUE_STATUSES"
  by (simp add: QUEUE_STATUSES_def)

lemma update_queue_metrics_alerts:
  "alerts (update_queue_metrics S) =
     alerts S @ (if count_status (tasks S) ''queued'' > 20
                 then [backlog_alert (count_status (tasks S) ''queued'')] else [])"
  by (simp add: update_queue_metrics_def Let_def map_of_counts queued_known)


lemma save_task_twice:
  "task_id t1 = task_id t0 \<Longrightarrow> save_task t1 (save_task t0 ts) = save_task t1 ts"
  by (induction ts) (auto simp: save_task_def)

lemma delete_task_saved:
  "task_id t1 = task_id t0 \<Longrightarrow> delete_task t1 (save_task t0 ts) = delete_task t0 ts"
  by (induction ts) (auto simp: save_task_def delete_task_def)

lemma delete_task_gone: "u \<in> set (delete_task t ts) \<Longrightarrow> task_id u \<noteq> task_id t"
  by (simp add: delete_task_def)

lemma save_task_row:
  "u \<in> set (save_task t ts) \<Longrightarrow> task_id u = task_id t \<Longrightarrow> u = t"
  by (auto simp: save_task_def split: if_splits)

lemma inc_jobs_total_frame [simp]:
  "tasks (inc_jobs_total r S) = tasks S"
  "io (inc_jobs_total r S) = io S"
  "file_meta (inc_jobs_total r S) = file_meta S"
  "alerts (inc_jobs_total r S) = alerts S"
  "queue_gauge (inc_jobs_total r S) = queue_gauge S"
  by (simp_all add: inc_jobs_total_def)

lemma copy_phase_tasks: "copy_phase E t S = (t', S') \<Longrightarrow> tasks S' = tasks S \<and> alerts S' = alerts S"
  by (auto simp: copy_phase_def split: prod.splits sum.splits outcome.splits)

lemma cleanup_phase_tasks: "cleanup_phase E t S = (t', S') \<Longrightarrow> tasks S' = tasks S \<and> alerts S' = alerts S"
  by (auto simp: cleanup_phase_def split: prod.splits sum.splits)

lemma settle_alerts [simp]: "alerts (settle q t S) = alerts S"
  by (simp add: settle_def Let_def)

lemma process_queue_once_observed:
  "process_queue_once E S = (b, S') \<Longrightarrow>
     (\<exists>S''. S' = update_queue_metrics S'' \<and> alerts S'' = alerts S)"
proof -
  assume a: "process_queue_once E S = (b, S')"
  show ?thesis
  proof (cases "claim_next (tasks S)")
    case None
    with a show ?thesis by (auto simp: process_queue_once_def)
  next
    case (Some t)
    from claim_next_ready(1)[OF Some] have "task_status t \<in> set [''queued'', ''failed''] \<or> task_status t = ''cleanup''"
      by (auto simp: ready_def)
    then show ?thesis
    proof
      assume c: "task_status t \<in> set [''queued'', ''failed'']"
      obtain t' S1 where cp: "copy_phase E (t\<lparr>task_status := ''running''\<rparr>) (S\<lparr>tasks := save_task (t\<lparr>task_status := ''running''\<rparr>) (tasks S)\<rparr>) = (t', S1)"
        by (cases "copy_phase E (t\<lparr>task_status := ''running''\<rparr>) (S\<lparr>tasks := save_task (t\<lparr>task_status := ''running''\<rparr>) (tasks S)\<rparr>)")
      from a Some c cp have "S' = update_queue_metrics (settle ''queued'' t' S1)"
        by (simp add: process_queue_once_def Let_def)
      moreover have "alerts (settle ''queued'' t' S1) = alerts S"
        using copy_phase_tasks[OF cp] by simp
      ultimately show ?thesis by blast
    next
      assume c: "task_status t = ''cleanup''"
      obtain t' S1 where cp: "cleanup_phase E t S = (t', S1)"
        by (cases "cleanup_phase E t S")
      from a Some c cp have "S' = update_queue_metrics (settle ''cleanup'' t' S1)"
        by (simp add: process_queue_once_def Let_def)
      moreover have "alerts (settle ''cleanup'' t' S1) = alerts S"
        using cleanup_phase_tasks[OF cp] by simp
      ultimately show ?thesis by blast
    qed
  qed
qed

lemma settle_failed:
  assumes "task_status t' = ''failed''"
  shows "tasks (settle q t' S) =
     (if MAX_ATTEMPTS \<le> (case task_attempts t' of None \<Rightarrow> 0 | Some n \<Rightarrow> n) + 1
      then delete_task t' (tasks S)
      else save_task (t'\<lparr>task_status := q,
             task_attempts := Some ((case task_attempts t' of None \<Rightarrow> 0 | Some n \<Rightarrow> n) + 1)\<rparr>) (tasks S))"
  using assms by (cases t') (auto simp: settle_def Let_def delete_task_def split: option.splits)

lemma copy_phase_failed:
  assumes "copy_phase E t0 S0 = (t', S1)"
    and "case fst (ensure_and_copy_once E (task_key t0) (task_src t0) (task_dst t0) (io S0)) of
              Inl e \<Rightarrow> True
            | Inr r \<Rightarrow> outcome_status r \<noteq> ''copied'' \<and> outcome_status r \<noteq> ''noop''"
  shows "\<exists>err. t' = t0\<lparr>task_status := ''failed'', task_error := err\<rparr>"
  using assms
  by (auto simp: copy_phase_def split: prod.splits sum.splits outcome.splits)

lemma cleanup_phase_failed:
  assumes "cleanup_phase E t0 S0 = (t', S1)"
    and "case fst (cleanup_once E (task_key t0) (task_src t0) (io S0)) of
              Inl e \<Rightarrow> True
            | Inr r \<Rightarrow> False"
  shows "\<exists>err. t' = t0\<lparr>task_status := ''failed'', task_error := err\<rparr>"
  using assms
  by (auto simp: cleanup_phase_def split: prod.splits sum.splits)

lemma failed_tick_tasks:
  assumes c: "claim_next (tasks S) = Some t"
    and f: "tick_fails E S t"
    and p: "process_queue_once E S = (b, S')"
  shows "\<exists>err. tasks S' =
     (if MAX_ATTEMPTS \<le> (case task_attempts t of None \<Rightarrow> 0 | Some n \<Rightarrow> n) + 1
      then delete_task t (tasks S)
      else save_task (t\<lparr>task_status := (if task_status t = ''cleanup'' then ''cleanup'' else ''queued''),
             task_attempts := Some ((case task_attempts t of None \<Rightarrow> 0 | Some n \<Rightarrow> n) + 1),
             task_error := err\<rparr>) (tasks S))"
proof (cases "task_status t = ''cleanup''")
  case True
  obtain t' S1 where cp: "cleanup_phase E t S = (t', S1)"
    by (cases "cleanup_phase E t S")
  from f True cleanup_phase_failed[OF cp] obtain err
    where t': "t' = t\<lparr>task_status := ''failed'', task_error := err\<rparr>"
    by (auto simp: tick_fails_def)
  from p c True cp have "S' = update_queue_metrics (settle ''cleanup'' t' S1)"
    by (simp add: process_queue_once_def)
  then have "tasks S' = tasks (settle ''cleanup'' t' S1)" by simp
  also have "\<dots> = (if MAX_ATTEMPTS \<le> (case task_attempts t of None \<Rightarrow> 0 | Some n \<Rightarrow> n) + 1
      then delete_task t (tasks S)
      else save_task (t\<lparr>task_status := ''cleanup'',
             task_attempts := Some ((case task_attempts t of None \<Rightarrow> 0 | Some n \<Rightarrow> n) + 1),
             task_error := err\<rparr>) (tasks S))"
    using cleanup_phase_tasks[OF cp]
    by (cases t) (simp add: settle_failed t' delete_task_def)
  finally show ?thesis using True by auto
next
  case False
  with claim_next_ready(1)[OF c] have q: "task_status t \<in> set [''queued'', ''failed'']"
    by (auto simp: ready_def)
  define t0 where "t0 = t\<lparr>task_status := ''running''\<rparr>"
  define S0 where "S0 = S\<lparr>tasks := save_task t0 (tasks S)\<rparr>"
  obtain t' S1 where cp: "copy_phase E t0 S0 = (t', S1)"
    by (cases "copy_phase E t0 S0")
  from f False have "case fst (ensure_and_copy_once E (task_key t0) (task_src t0) (task_dst t0) (io S0)) of
              Inl e \<Rightarrow> True
            | Inr r \<Rightarrow> outcome_status r \<noteq> ''copied'' \<and> outcome_status r \<noteq> ''noop''"
    by (simp add: tick_fails_def t0_def S0_def)
  from copy_phase_failed[OF cp this] obtain err
    where t': "t' = t0\<lparr>task_status := ''failed'', task_error := err\<rparr>"
    by auto
  from p c q cp have "S' = update_queue_metrics (settle ''queued'' t' S1)"
    by (simp add: process_queue_once_def Let_def t0_def S0_def)
  then have "tasks S' = tasks (settle ''queued'' t' S1)" by simp
  also have "\<dots> = (if MAX_ATTEMPTS \<le> (case task_attempts t of None \<Rightarrow> 0 | Some n \<Rightarrow> n) + 1
      then delete_task t (tasks S)
      else save_task (t\<lparr>task_status := ''queued'',
             task_attempts := Some ((case task_attempts t of None \<Rightarrow> 0 | Some n \<Rightarrow> n) + 1),
             task_error := err\<rparr>) (tasks S))"
    using copy_phase_tasks[OF cp]
    by (cases t)
      (simp add: settle_failed t' t0_def S0_def save_task_twice delete_task_saved;
       simp add: delete_task_def)
  finally show ?thesis using False by auto
qed

text \<open>
  C3: a tick that takes the task it picked through a failed path adds exactly one to
  \<^verbatim>\<open>attempts\<close> (a missing value counted as 0) and decides on the new value: when it
  is at least \<^verbatim>\<open>MAX_ATTEMPTS\<close> = 5 the row is deleted from the store; otherwise the row
  stays, with the new \<^verbatim>\<open>attempts\<close>, and with status \<^verbatim>\<open>queued\<close> after the copy phase and
  \<^verbatim>\<open>cleanup\<close> after the cleanup phase. So no row of the task with \<^verbatim>\<open>attempts\<close> =
  \<^verbatim>\<open>MAX_ATTEMPTS\<close> is left by a failing tick.
\<close>

theorem failed_path_attempts:
  assumes "claim_next (tasks S) = Some t"
    and "tick_fails E S t"
    and "process_queue_once E S = (b, S')"
    and "a = (case task_attempts t of None \<Rightarrow> 0 | Some n \<Rightarrow> n) + 1"
    and "requeue = (if task_status t = ''cleanup'' then ''cleanup'' else ''queued'')"
  shows "MAX_ATTEMPTS = 5
    \<and> (\<exists>err. tasks S' =
          (if 5 \<le> a then delete_task t (tasks S)
           else save_task (t\<lparr>task_status := requeue, task_attempts := Some a,
                              task_error := err\<rparr>) (tasks S))
          \<and> (a < 5 \<longrightarrow>
               t\<lparr>task_status := requeue, task_attempts := Some a, task_error := err\<rparr>
                 \<in> set (tasks S')))
    \<and> (5 \<le> a \<longrightarrow> (\<forall>u\<in>set (tasks S'). task_id u \<noteq> task_id t))
    \<and> (a < 5 \<longrightarrow>
         (\<forall>u\<in>set (tasks S'). task_id u = task_id t \<longrightarrow>
            task_status u = requeue \<and> task_attempts u = Some a))
    \<and> (\<forall>u\<in>set (tasks S'). task_id u = task_id t \<longrightarrow> task_attempts u \<noteq> Some MAX_ATTEMPTS)"
proof -
  from failed_tick_tasks[OF assms(1-3)] obtain err where
    ts: "tasks S' =
          (if 5 \<le> a then delete_task t (tasks S)
           else save_task (t\<lparr>task_status := requeue, task_attempts := Some a,
                              task_error := err\<rparr>) (tasks S))"
    using assms(4,5) by (auto simp: MAX_ATTEMPTS_def)
  have mem: "t \<in> set (tasks S)" by (rule claim_next_ready(2)[OF assms(1)])
  have kept: "a < 5 \<longrightarrow>
      t\<lparr>task_status := requeue, task_attempts := Some a, task_error := err\<rparr> \<in> set (tasks S')"
  proof
    assume "a < 5"
    then have "tasks S' = save_task (t\<lparr>task_status := requeue, task_attempts := Some a,
                              task_error := err\<rparr>) (tasks S)"
      using ts by simp
    moreover have "t\<lparr>task_status := requeue, task_attempts := Some a, task_error := err\<rparr>
        \<in> set (save_task (t\<lparr>task_status := requeue, task_attempts := Some a,
                              task_error := err\<rparr>) (tasks S))"
      using mem by (force simp: save_task_def)
    ultimately show "t\<lparr>task_status := requeue, task_attempts := Some a, task_error := err\<rparr>
        \<in> set (tasks S')" by simp
  qed
  have gone: "5 \<le> a \<longrightarrow> (\<forall>u\<in>set (tasks S'). task_id u \<noteq> task_id t)"
    using ts by (auto dest: delete_task_gone)
  have row: "a < 5 \<longrightarrow>
         (\<forall>u\<in>set (tasks S'). task_id u = task_id t \<longrightarrow>
            task_status u = requeue \<and> task_attempts u = Some a)"
  proof (intro impI ballI)
    fix u
    assume "a < 5" and u: "u \<in> set (tasks S')" and i: "task_id u = task_id t"
    then have "u \<in> set (save_task (t\<lparr>task_status := requeue, task_attempts := Some a,
                              task_error := err\<rparr>) (tasks S))"
      using ts by simp
    from save_task_row[OF this] i
    have "u = t\<lparr>task_status := requeue, task_attempts := Some a, task_error := err\<rparr>"
      by simp
    then show "task_status u = requeue \<and> task_attempts u = Some a" by simp
  qed
  have never: "\<forall>u\<in>set (tasks S'). task_id u = task_id t \<longrightarrow> task_attempts u \<noteq> Some MAX_ATTEMPTS"
  proof (cases "5 \<le> a")
    case True
    with gone show ?thesis by blast
  next
    case False
    with row show ?thesis by (auto simp: MAX_ATTEMPTS_def)
  qed
  from ts kept gone row never show ?thesis
    by (simp only: MAX_ATTEMPTS_def) blast
qed

theorem failed_path_attempts_witness:
  "claim_next [sim_task 1 ''queued'' (Some 4)] = Some (sim_task 1 ''queued'' (Some 4))
   \<and> tick_fails sim_env (sim_sys [sim_task 1 ''queued'' (Some 4)] (sim_world []))
        (sim_task 1 ''queued'' (Some 4))
   \<and> tasks (snd (process_queue_once sim_env
        (sim_sys [sim_task 1 ''queued'' (Some 4)] (sim_world [])))) = []
   \<and> claim_next [sim_task 1 ''cleanup'' None] = Some (sim_task 1 ''cleanup'' None)
   \<and> tick_fails sim_env (sim_sys [sim_task 1 ''cleanup'' None] (sim_world [Raise slow_down]))
        (sim_task 1 ''cleanup'' None)
   \<and> map task_status (tasks (snd (process_queue_once sim_env
        (sim_sys [sim_task 1 ''cleanup'' None] (sim_world [Raise slow_down]))))) = [''cleanup'']
   \<and> map task_attempts (tasks (snd (process_queue_once sim_env
        (sim_sys [sim_task 1 ''cleanup'' None] (sim_world [Raise slow_down]))))) = [Some 1]"
proof -
  define t1 where "t1 = sim_task 1 ''queued'' (Some 4)"
  define S1 where "S1 = sim_sys [t1] (sim_world [])"
  define t2 where "t2 = sim_task 1 ''cleanup'' None"
  define S2 where "S2 = sim_sys [t2] (sim_world [Raise slow_down])"
  have c1: "claim_next (tasks S1) = Some t1"
    by (simp add: S1_def t1_def claim_next_def ready_def sim_defs)
  have f1: "tick_fails sim_env S1 t1"
    by (simp add: tick_fails_def S1_def t1_def ensure_and_copy_once_def chaos_delay_def
          get_latency_def head_meta_def LATENCY_KEY_def io_defs sim_defs)
  have p1: "process_queue_once sim_env S1 = (fst (process_queue_once sim_env S1),
      snd (process_queue_once sim_env S1))"
    by simp
  have c2: "claim_next (tasks S2) = Some t2"
    by (simp add: S2_def t2_def claim_next_def ready_def sim_defs)
  have f2: "tick_fails sim_env S2 t2"
    by (simp add: tick_fails_def S2_def t2_def cleanup_once_def not_found_code_def io_defs
          sim_defs)
  have p2: "process_queue_once sim_env S2 = (fst (process_queue_once sim_env S2),
      snd (process_queue_once sim_env S2))"
    by simp
  from failed_path_attempts[OF c1 f1 p1 refl refl]
  have r1: "tasks (snd (process_queue_once sim_env S1)) = []"
    by (auto simp: t1_def S1_def delete_task_def sim_defs)
  from failed_path_attempts[OF c2 f2 p2 refl refl]
  obtain err where "tasks (snd (process_queue_once sim_env S2)) =
      [t2\<lparr>task_status := ''cleanup'', task_attempts := Some 1, task_error := err\<rparr>]"
    by (auto simp: t2_def S2_def save_task_def sim_defs)
  then have r2: "map task_status (tasks (snd (process_queue_once sim_env S2))) = [''cleanup'']
      \<and> map task_attempts (tasks (snd (process_queue_once sim_env S2))) = [Some 1]"
    by simp
  from c1 f1 r1 c2 f2 r2 show ?thesis
    by (simp add: S1_def S2_def t1_def t2_def sim_sys_def)
qed

text \<open>
  C6: every call of the observer sets the gauge of each of the five statuses to the
  number of rows with that status, 0 when there is none, and creates the alert
  \<^verbatim>\<open>migration_backlog\<close> (severity \<^verbatim>\<open>warning\<close>, message "n migration tasks queued",
  metadata \<^verbatim>\<open>{queued: n}\<close>) exactly when the number n of queued rows is greater than 20.
  Every tick of the processor, idle or not, ends with such a call: the gauges and the
  alert after a tick are those of the rows the tick leaves.
\<close>

theorem queue_observer:
  "QUEUE_STATUSES = [''queued'', ''running'', ''done'', ''failed'', ''cleanup'']
   \<and> (\<forall>status\<in>set QUEUE_STATUSES.
        queue_gauge (update_queue_metrics S) status = Some (count_status (tasks S) status))
   \<and> alerts (update_queue_metrics S) =
       alerts S @
         (if 20 < count_status (tasks S) ''queued''
          then [\<lparr>alert_name = ''migration_backlog'', alert_severity = ''warning'',
                 alert_message =
                   str_nat (count_status (tasks S) ''queued'') @ '' migration tasks queued'',
                 alert_metadata = [(''queued'', count_status (tasks S) ''queued'')]\<rparr>]
          else [])
   \<and> (process_queue_once E S = (b, S') \<longrightarrow>
        (\<forall>status\<in>set QUEUE_STATUSES.
           queue_gauge S' status = Some (count_status (tasks S') status))
        \<and> alerts S' =
            alerts S @
              (if 20 < count_status (tasks S') ''queued''
               then [\<lparr>alert_name = ''migration_backlog'', alert_severity = ''warning'',
                      alert_message =
                        str_nat (count_status (tasks S') ''queued'') @ '' migration tasks queued'',
                      alert_metadata = [(''queued'', count_status (tasks S') ''queued'')]\<rparr>]
               else []))"
proof -
  have obs: "(\<forall>status\<in>set QUEUE_STATUSES.
        queue_gauge (update_queue_metrics X) status = Some (count_status (tasks X) status))
      \<and> alerts (update_queue_metrics X) =
       alerts X @
         (if 20 < count_status (tasks X) ''queued''
          then [\<lparr>alert_name = ''migration_backlog'', alert_severity = ''warning'',
                 alert_message =
                   str_nat (count_status (tasks X) ''queued'') @ '' migration tasks queued'',
                 alert_metadata = [(''queued'', count_status (tasks X) ''queued'')]\<rparr>]
          else [])" for X :: "'a sys"
    by (simp add: update_queue_metrics_gauge update_queue_metrics_alerts backlog_alert_def)
  have tick: "process_queue_once E S = (b, S') \<longrightarrow>
        (\<forall>status\<in>set QUEUE_STATUSES.
           queue_gauge S' status = Some (count_status (tasks S') status))
        \<and> alerts S' =
            alerts S @
              (if 20 < count_status (tasks S') ''queued''
               then [\<lparr>alert_name = ''migration_backlog'', alert_severity = ''warning'',
                      alert_message =
                        str_nat (count_status (tasks S') ''queued'') @ '' migration tasks queued'',
                      alert_metadata = [(''queued'', count_status (tasks S') ''queued'')]\<rparr>]
               else [])"
  proof
    assume "process_queue_once E S = (b, S')"
    from process_queue_once_observed[OF this] obtain X
      where X: "S' = update_queue_metrics X" and a: "alerts X = alerts S"
      by blast
    from obs[of X] show "(\<forall>status\<in>set QUEUE_STATUSES.
           queue_gauge S' status = Some (count_status (tasks S') status))
        \<and> alerts S' =
            alerts S @
              (if 20 < count_status (tasks S') ''queued''
               then [\<lparr>alert_name = ''migration_backlog'', alert_severity = ''warning'',
                      alert_message =
                        str_nat (count_status (tasks S') ''queued'') @ '' migration tasks queued'',
                      alert_metadata = [(''queued'', count_status (tasks S') ''queued'')]\<rparr>]
               else [])"
      by (simp add: X a)
  qed
  from obs[of S] tick show ?thesis by (simp add: QUEUE_STATUSES_def)
qed

theorem queue_observer_witness:
  "map (queue_gauge (snd (process_queue_once sim_env
          (sim_sys (map (\<lambda>n. sim_task n ''queued'' None) [0..<21]) (sim_world [])))))
       [''queued'', ''running'', ''done'', ''failed'', ''cleanup''] =
     [Some 21, Some 0, Some 0, Some 0, Some 0]
   \<and> alerts (snd (process_queue_once sim_env
          (sim_sys (map (\<lambda>n. sim_task n ''queued'' None) [0..<21]) (sim_world [])))) =
     [\<lparr>alert_name = ''migration_backlog'', alert_severity = ''warning'',
       alert_message = ''21 migration tasks queued'', alert_metadata = [(''queued'', 21)]\<rparr>]
   \<and> alerts (snd (process_queue_once sim_env (sim_sys [] (sim_world [])))) = []
   \<and> queue_gauge (snd (process_queue_once sim_env (sim_sys [] (sim_world [])))) ''queued'' =
     Some 0"
proof -
  define S1 :: "sim sys"
    where "S1 = sim_sys (map (\<lambda>n. sim_task n ''queued'' None) [0..<21]) (sim_world [])"
  define S2 :: "sim sys" where "S2 = sim_sys [] (sim_world [])"
  have ts: "[0..<21] = [0, 1, 2, 3, 4, 5, 6, 7, 8, 9, 10, 11, 12, 13, 14, 15, 16, 17, 18, 19, 20::nat]"
    by (simp add: upt_rec)
  have c1: "claim_next (tasks S1) = Some (sim_task 0 ''queued'' None)"
    by (simp add: S1_def ts claim_next_def ready_def sim_defs)
  have f1: "tick_fails sim_env S1 (sim_task 0 ''queued'' None)"
    by (simp add: tick_fails_def S1_def ensure_and_copy_once_def chaos_delay_def
          get_latency_def head_meta_def LATENCY_KEY_def io_defs sim_defs)
  have p1: "process_queue_once sim_env S1 =
      (fst (process_queue_once sim_env S1), snd (process_queue_once sim_env S1))"
    by simp
  from failed_tick_tasks[OF c1 f1 p1]
  have n1: "count_status (tasks (snd (process_queue_once sim_env S1))) ''queued'' = 21
      \<and> count_status (tasks (snd (process_queue_once sim_env S1))) ''running'' = 0
      \<and> count_status (tasks (snd (process_queue_once sim_env S1))) ''done'' = 0
      \<and> count_status (tasks (snd (process_queue_once sim_env S1))) ''failed'' = 0
      \<and> count_status (tasks (snd (process_queue_once sim_env S1))) ''cleanup'' = 0"
    by (auto simp: S1_def ts count_status_def save_task_def MAX_ATTEMPTS_def sim_defs)
  have s21: "str_nat 21 = ''21''"
    by (simp add: str_nat.simps)
  have p2: "process_queue_once sim_env S2 =
      (fst (process_queue_once sim_env S2), snd (process_queue_once sim_env S2))"
    by simp
  have n2: "count_status (tasks (snd (process_queue_once sim_env S2))) ''queued'' = 0"
    by (simp add: S2_def process_queue_once_def claim_next_def count_status_def sim_defs)
  have a1: "alerts S1 = []" and a2: "alerts S2 = []"
    by (simp_all add: S1_def S2_def sim_sys_def)
  from queue_observer[of S1 sim_env "fst (process_queue_once sim_env S1)"
      "snd (process_queue_once sim_env S1)"] p1
  have "(\<forall>status\<in>set QUEUE_STATUSES.
           queue_gauge (snd (process_queue_once sim_env S1)) status =
             Some (count_status (tasks (snd (process_queue_once sim_env S1))) status))
        \<and> alerts (snd (process_queue_once sim_env S1)) =
            alerts S1 @
              (if 20 < count_status (tasks (snd (process_queue_once sim_env S1))) ''queued''
               then [\<lparr>alert_name = ''migration_backlog'', alert_severity = ''warning'',
                      alert_message =
                        str_nat (count_status (tasks (snd (process_queue_once sim_env S1)))
                          ''queued'') @ '' migration tasks queued'',
                      alert_metadata =
                        [(''queued'',
                          count_status (tasks (snd (process_queue_once sim_env S1)))
                            ''queued'')]\<rparr>]
               else [])"
    by blast
  with n1 s21 a1
  have r1: "map (queue_gauge (snd (process_queue_once sim_env S1)))
       [''queued'', ''running'', ''done'', ''failed'', ''cleanup''] =
     [Some 21, Some 0, Some 0, Some 0, Some 0]
   \<and> alerts (snd (process_queue_once sim_env S1)) =
     [\<lparr>alert_name = ''migration_backlog'', alert_severity = ''warning'',
       alert_message = ''21 migration tasks queued'', alert_metadata = [(''queued'', 21)]\<rparr>]"
    by (simp add: QUEUE_STATUSES_def)
  from queue_observer[of S2 sim_env "fst (process_queue_once sim_env S2)"
      "snd (process_queue_once sim_env S2)"] p2
  have "(\<forall>status\<in>set QUEUE_STATUSES.
           queue_gauge (snd (process_queue_once sim_env S2)) status =
             Some (count_status (tasks (snd (process_queue_once sim_env S2))) status))
        \<and> alerts (snd (process_queue_once sim_env S2)) =
            alerts S2 @
              (if 20 < count_status (tasks (snd (process_queue_once sim_env S2))) ''queued''
               then [\<lparr>alert_name = ''migration_backlog'', alert_severity = ''warning'',
                      alert_message =
                        str_nat (count_status (tasks (snd (process_queue_once sim_env S2)))
                          ''queued'') @ '' migration tasks queued'',
                      alert_metadata =
                        [(''queued'',
                          count_status (tasks (snd (process_queue_once sim_env S2)))
                            ''queued'')]\<rparr>]
               else [])"
    by blast
  with n2 a2
  have r2: "alerts (snd (process_queue_once sim_env S2)) = []
      \<and> queue_gauge (snd (process_queue_once sim_env S2)) ''queued'' = Some 0"
    by (simp add: QUEUE_STATUSES_def)
  from r1 r2 show ?thesis by (simp add: S1_def S2_def)
qed

text \<open>
  C7: when encryption enforcement is on and the destination endpoint is not encrypted,
  \<^verbatim>\<open>_ensure_and_copy_once\<close> returns \<^verbatim>\<open>blocked\<close> with reason
  \<^verbatim>\<open>destination_not_encrypted\<close> and leaves the storage side as it found it: no sleep,
  no bucket call, no HEAD, GET or PUT has been issued. The processor then takes the
  failed path: the counter \<^verbatim>\<open>migration_jobs_total{result="blocked"}\<close> goes up by one,
  \<^verbatim>\<open>attempts\<close> goes up by one, and the row is deleted when the new \<^verbatim>\<open>attempts\<close> is at
  least 5 and otherwise stays, queued, with error \<^verbatim>\<open>destination_not_encrypted\<close>.
\<close>

theorem encryption_block:
  assumes "is_encryption_enforced E (world s)"
    and "\<not> endpoint_is_encrypted E (world s) dst"
  shows "ensure_and_copy_once E key src dst s = (Inr (Blocked ''destination_not_encrypted''), s)
    \<and> (claim_next (tasks S) = Some t \<and> task_status t \<in> {''queued'', ''failed''}
         \<and> task_dst t = dst \<and> io S = s
         \<and> a = (case task_attempts t of None \<Rightarrow> 0 | Some n \<Rightarrow> n) + 1 \<longrightarrow>
       fst (process_queue_once E S) = True
       \<and> jobs_total (snd (process_queue_once E S)) =
           (jobs_total S)(''blocked'' := jobs_total S ''blocked'' + 1)
       \<and> io (snd (process_queue_once E S)) = s
       \<and> tasks (snd (process_queue_once E S)) =
           (if 5 \<le> a then delete_task t (tasks S)
            else save_task (t\<lparr>task_status := ''queued'', task_attempts := Some a,
                               task_error := ''destination_not_encrypted''\<rparr>) (tasks S)))"
proof -
  have blocked: "ensure_and_copy_once E k sr dst s =
      (Inr (Blocked ''destination_not_encrypted''), s)" for k sr
    using assms by (rule copy_blocked)
  have "fst (process_queue_once E S) = True
       \<and> jobs_total (snd (process_queue_once E S)) =
           (jobs_total S)(''blocked'' := jobs_total S ''blocked'' + 1)
       \<and> io (snd (process_queue_once E S)) = s
       \<and> tasks (snd (process_queue_once E S)) =
           (if 5 \<le> a then delete_task t (tasks S)
            else save_task (t\<lparr>task_status := ''queued'', task_attempts := Some a,
                               task_error := ''destination_not_encrypted''\<rparr>) (tasks S))"
    if c: "claim_next (tasks S) = Some t" and q: "task_status t \<in> {''queued'', ''failed''}"
      and d: "task_dst t = dst" and i: "io S = s"
      and a: "a = (case task_attempts t of None \<Rightarrow> 0 | Some n \<Rightarrow> n) + 1"
  proof -
    define t0 where "t0 = t\<lparr>task_status := ''running''\<rparr>"
    define S0 where "S0 = S\<lparr>tasks := save_task t0 (tasks S)\<rparr>"
    have cp: "copy_phase E t0 S0 =
        (t0\<lparr>task_status := ''failed'', task_error := ''destination_not_encrypted''\<rparr>,
         inc_jobs_total ''blocked'' (S0\<lparr>io := s\<rparr>))"
      by (simp add: copy_phase_def t0_def S0_def d i blocked)
    have p: "process_queue_once E S =
        (True, update_queue_metrics (settle ''queued''
           (t0\<lparr>task_status := ''failed'', task_error := ''destination_not_encrypted''\<rparr>)
           (inc_jobs_total ''blocked'' (S0\<lparr>io := s\<rparr>))))"
      using c q cp by (simp add: process_queue_once_def Let_def t0_def S0_def)
    show ?thesis
      unfolding p
      by (cases t)
        (simp add: settle_def Let_def a t0_def S0_def i inc_jobs_total_def MAX_ATTEMPTS_def
           save_task_twice delete_task_saved split: option.splits;
         simp add: delete_task_def)
  qed
  with blocked show ?thesis by blast
qed

theorem encryption_block_witness:
  "is_encryption_enforced sim_env (sim_world []\<lparr>sim_enforced := True\<rparr>)
   \<and> \<not> endpoint_is_encrypted sim_env (sim_world []\<lparr>sim_enforced := True\<rparr>) ''s2''
   \<and> ensure_and_copy_once sim_env ''a/b'' ''s1'' ''s2''
        (sim_start (sim_world []\<lparr>sim_enforced := True\<rparr>)) =
      (Inr (Blocked ''destination_not_encrypted''),
       \<lparr>world = sim_world []\<lparr>sim_enforced := True\<rparr>, trace = []\<rparr>)
   \<and> jobs_total (snd (process_queue_once sim_env
        (sim_sys [sim_task 1 ''queued'' None] (sim_world []\<lparr>sim_enforced := True\<rparr>))))
        ''blocked'' = 1
   \<and> tasks (snd (process_queue_once sim_env
        (sim_sys [sim_task 1 ''queued'' None] (sim_world []\<lparr>sim_enforced := True\<rparr>)))) =
      [(sim_task 1 ''queued'' (Some 1))\<lparr>task_error := ''destination_not_encrypted''\<rparr>]
   \<and> trace (io (snd (process_queue_once sim_env
        (sim_sys [sim_task 1 ''queued'' None] (sim_world []\<lparr>sim_enforced := True\<rparr>))))) = []"
proof -
  define w where "w = sim_world []\<lparr>sim_enforced := True\<rparr>"
  have e: "is_encryption_enforced sim_env (world (sim_start w))"
    by (simp add: w_def sim_defs)
  have n: "\<not> endpoint_is_encrypted sim_env (world (sim_start w)) ''s2''"
    by (simp add: w_def sim_defs)
  have c: "claim_next (tasks (sim_sys [sim_task 1 ''queued'' None] w)) =
      Some (sim_task 1 ''queued'' None)"
    by (simp add: claim_next_def ready_def sim_defs)
  from encryption_block[OF e n, of "''a/b''" "''s1''" "sim_sys [sim_task 1 ''queued'' None] w"
      "sim_task 1 ''queued'' None" 1] c
  have "ensure_and_copy_once sim_env ''a/b'' ''s1'' ''s2'' (sim_start w) =
      (Inr (Blocked ''destination_not_encrypted''), sim_start w)
   \<and> jobs_total (snd (process_queue_once sim_env (sim_sys [sim_task 1 ''queued'' None] w)))
        ''blocked'' = 1
   \<and> tasks (snd (process_queue_once sim_env (sim_sys [sim_task 1 ''queued'' None] w))) =
      [(sim_task 1 ''queued'' (Some 1))\<lparr>task_error := ''destination_not_encrypted''\<rparr>]
   \<and> io (snd (process_queue_once sim_env (sim_sys [sim_task 1 ''queued'' None] w))) =
      sim_start w"
    by (simp add: sim_sys_def sim_task_def save_task_def)
  with e n show ?thesis
    by (simp add: w_def sim_start_def)
qed

section \<open>The copy engine: guards, idempotence and retries\<close>

lemma chaos_delay_puts: "filter is_put (trace (chaos_delay E s)) = filter is_put (trace s)"
  by (simp add: chaos_delay_trace)

lemma heads_no_put:
  assumes "io_ensure_bucket E src (chaos_delay E s) = (Inr u2, s2)"
    and "io_ensure_bucket E dst s2 = (Inr u3, s3)"
    and "head_meta E src key s3 = (Inr sm, s4)"
    and "head_meta E dst key s4 = (Inr dm, s5)"
  shows "filter is_put (trace s5) = filter is_put (trace s)"
  using io_ensure_bucket_trace[OF assms(1)] io_ensure_bucket_trace[OF assms(2)]
    head_meta_trace[OF assms(3)] head_meta_trace[OF assms(4)]
  by (simp add: chaos_delay_puts)

lemma both_heads_equal_noop:
  assumes "both_heads_equal E key src dst s"
  shows "fst (ensure_and_copy_once E key src dst s) = Inr Noop"
    and "filter is_put (trace (snd (ensure_and_copy_once E key src dst s))) =
           filter is_put (trace s)"
    and "trace (snd (ensure_and_copy_once E key src dst s)) =
           trace (chaos_delay E s) @
             [EvEnsureBucket src, EvEnsureBucket dst, EvHead src key, EvHead dst key]"
proof -
  from assms have
    g: "\<not> (is_encryption_enforced E (world s) \<and> \<not> endpoint_is_encrypted E (world s) dst)"
    by (simp add: both_heads_equal_def)
  obtain r2 s2 where c2: "io_ensure_bucket E src (chaos_delay E s) = (r2, s2)"
    by (cases "io_ensure_bucket E src (chaos_delay E s)")
  from assms c2 obtain u2 where r2: "r2 = Inr u2"
    by (cases r2) (auto simp: both_heads_equal_def)
  obtain r3 s3 where c3: "io_ensure_bucket E dst s2 = (r3, s3)"
    by (cases "io_ensure_bucket E dst s2")
  from assms c2 r2 c3 obtain u3 where r3: "r3 = Inr u3"
    by (cases r3) (auto simp: both_heads_equal_def)
  obtain r4 s4 where c4: "head_meta E src key s3 = (r4, s4)"
    by (cases "head_meta E src key s3")
  from assms c2 r2 c3 r3 c4 obtain a where r4: "r4 = Inr (Some a)"
    by (cases r4) (auto simp: both_heads_equal_def split: option.splits)
  obtain r5 s5 where c5: "head_meta E dst key s4 = (r5, s5)"
    by (cases "head_meta E dst key s4")
  from assms c2 r2 c3 r3 c4 r4 c5 obtain b where r5: "r5 = Inr (Some b)"
    by (cases r5) (auto simp: both_heads_equal_def split: option.splits)
  from assms c2 r2 c3 r3 c4 r4 c5 r5 have eq: "meta_etag a = meta_etag b" "meta_size a = meta_size b"
    by (simp_all add: both_heads_equal_def)
  note e1 = c2[unfolded r2] and e2 = c3[unfolded r3] and h1 = c4[unfolded r4]
    and h2 = c5[unfolded r5]
  have r: "ensure_and_copy_once E key src dst s = (Inr Noop, s5)"
    using copy_reaches_heads(1)[OF g e1 e2 h1 h2] eq
    by (simp add: copy_after_heads_def same_object_def)
  show "fst (ensure_and_copy_once E key src dst s) = Inr Noop"
    by (simp add: r)
  show "filter is_put (trace (snd (ensure_and_copy_once E key src dst s))) =
           filter is_put (trace s)"
    using heads_no_put[OF e1 e2 h1 h2] by (simp add: r)
  show "trace (snd (ensure_and_copy_once E key src dst s)) =
           trace (chaos_delay E s) @
             [EvEnsureBucket src, EvEnsureBucket dst, EvHead src key, EvHead dst key]"
    using copy_reaches_heads(2)[OF g e1 e2 h1 h2] by (simp add: r)
qed

lemma copy_runs_length [simp]: "length (copy_runs E key src dst n s) = n"
  by (induction n arbitrary: s) auto

lemma copy_runs_nth:
  "j < n \<Longrightarrow>
   copy_runs E key src dst n s ! j =
     ensure_and_copy_once E key src dst
       (if j = 0 then s else snd (copy_runs E key src dst n s ! (j - 1)))"
proof (induction n arbitrary: s j)
  case 0
  then show ?case by simp
next
  case (Suc n)
  show ?case
  proof (cases j)
    case 0
    then show ?thesis by simp
  next
    case (Suc k)
    with Suc.prems have k: "k < n" by simp
    show ?thesis
      using Suc.IH[OF k, of "snd (ensure_and_copy_once E key src dst s)"] Suc
      by (cases k) auto
  qed
qed

lemma at_most_one:
  "(\<And>i j. i < j \<Longrightarrow> j < length xs \<Longrightarrow> P (xs ! i) \<Longrightarrow> \<not> P (xs ! j)) \<Longrightarrow>
   length (filter P xs) \<le> 1"
proof (induction xs)
  case Nil
  then show ?case by simp
next
  case (Cons x xs)
  have ih: "length (filter P xs) \<le> 1"
  proof (rule Cons.IH)
    fix i j
    assume "i < j" "j < length xs" "P (xs ! i)"
    then show "\<not> P (xs ! j)"
      using Cons.prems[of "Suc i" "Suc j"] by simp
  qed
  show ?case
  proof (cases "P x")
    case False
    with ih show ?thesis by simp
  next
    case True
    have "\<not> P y" if "y \<in> set xs" for y
    proof -
      from that obtain k where "k < length xs" "xs ! k = y"
        by (auto simp: in_set_conv_nth)
      then show ?thesis using Cons.prems[of 0 "Suc k"] True by auto
    qed
    then have "filter P xs = []" by (simp add: filter_empty_conv)
    with True show ?thesis by simp
  qed
qed

lemmas copy_defs =
  ensure_and_copy_once_def copy_after_heads_def file_growing_def chaos_delay_def get_latency_def
  head_meta_def same_object_def try_copy_def not_found_code_def throttling_code_def
  max_retries_def LATENCY_KEY_def strip_quotes_def is_quote_def

text \<open>
  C2, as the claim states it, fails in its second half: the code compares what the two
  HEADs report and nothing else, so when the destination endpoint reports for the object
  it was sent an etag other than the source's, a second call copies again. Here the
  first call finds the destination absent and copies; the second call finds it present
  with etag \<^verbatim>\<open>E2\<close> against the source's \<^verbatim>\<open>E1\<close> and copies again: two \<^verbatim>\<open>copied\<close> outcomes in
  two runs, and no \<^verbatim>\<open>noop\<close>.
\<close>

theorem repeated_copy_counterexample:
  "map fst (copy_runs sim_env ''a/b'' ''s1'' ''s2'' 2
      (sim_start (sim_world
         [Done, Done, head_reply (quoted ''E1'') 100 0, Raise not_found,
          head_reply (quoted ''E1'') 100 0, BodyReply ''data'', Done,
          Done, Done, head_reply (quoted ''E1'') 100 0, head_reply (quoted ''E2'') 100 0,
          head_reply (quoted ''E1'') 100 0, BodyReply ''data'', Done]))) =
     [Inr (Copied 100 ''0123456789abcdef0123456789abcdef''),
      Inr (Copied 100 ''0123456789abcdef0123456789abcdef'')]
   \<and> length (filter is_copied (map fst (copy_runs sim_env ''a/b'' ''s1'' ''s2'' 2
      (sim_start (sim_world
         [Done, Done, head_reply (quoted ''E1'') 100 0, Raise not_found,
          head_reply (quoted ''E1'') 100 0, BodyReply ''data'', Done,
          Done, Done, head_reply (quoted ''E1'') 100 0, head_reply (quoted ''E2'') 100 0,
          head_reply (quoted ''E1'') 100 0, BodyReply ''data'', Done]))))) = 2"
proof -
  define s0 where "s0 = sim_start (sim_world
         [Done, Done, head_reply (quoted ''E1'') 100 0, Raise not_found,
          head_reply (quoted ''E1'') 100 0, BodyReply ''data'', Done,
          Done, Done, head_reply (quoted ''E1'') 100 0, head_reply (quoted ''E2'') 100 0,
          head_reply (quoted ''E1'') 100 0, BodyReply ''data'', Done])"
  define ev where "ev = [EvEnsureBucket ''s1'', EvEnsureBucket ''s2'', EvHead ''s1'' ''a/b'',
           EvHead ''s2'' ''a/b'', EvHead ''s1'' ''a/b'', EvGet ''s1'' ''a/b'',
           EvPut ''s2'' ''a/b'' ''data'']"
  define s1 where "s1 = sim_at
         [Done, Done, head_reply (quoted ''E1'') 100 0, head_reply (quoted ''E2'') 100 0,
          head_reply (quoted ''E1'') 100 0, BodyReply ''data'', Done] ev"
  have r1: "ensure_and_copy_once sim_env ''a/b'' ''s1'' ''s2'' s0 =
      (Inr (Copied 100 ''0123456789abcdef0123456789abcdef''), s1)"
    by (simp add: s0_def s1_def ev_def copy_defs io_defs sim_defs sim_at_def upt_rec)
  have r2: "ensure_and_copy_once sim_env ''a/b'' ''s1'' ''s2'' s1 =
      (Inr (Copied 100 ''0123456789abcdef0123456789abcdef''), sim_at [] (ev @ ev))"
    by (simp add: s1_def ev_def copy_defs io_defs sim_defs sim_at_def upt_rec)
  have "copy_runs sim_env ''a/b'' ''s1'' ''s2'' 2 s0 =
      [(Inr (Copied 100 ''0123456789abcdef0123456789abcdef''), s1),
       (Inr (Copied 100 ''0123456789abcdef0123456789abcdef''), sim_at [] (ev @ ev))]"
    by (simp add: numeral_2_eq_2 r1 r2)
  then show ?thesis
    by (simp add: s0_def)
qed

text \<open>
  C2, amended: whenever a call of \<^verbatim>\<open>_ensure_and_copy_once\<close> gets both HEADs answered with
  present metadata of equal etag and equal size, it returns \<^verbatim>\<open>noop\<close> and has issued no
  PUT: after the latency sleep, if any, it has issued the two bucket calls and the two
  HEADs and nothing else. Consequently, in \<open>n\<close> calls in a row in which every call that
  follows a \<^verbatim>\<open>copied\<close> one finds the two sides equal in this way (the destination endpoint
  reports the etag and size of the source for the object it holds), at most one call
  returns \<^verbatim>\<open>copied\<close> and every call after it returns \<^verbatim>\<open>noop\<close>.
\<close>

theorem copy_once_idempotent:
  "(both_heads_equal E key src dst s \<longrightarrow>
      fst (ensure_and_copy_once E key src dst s) = Inr Noop
      \<and> filter is_put (trace (snd (ensure_and_copy_once E key src dst s))) =
          filter is_put (trace s)
      \<and> trace (snd (ensure_and_copy_once E key src dst s)) =
          trace (chaos_delay E s) @
            [EvEnsureBucket src, EvEnsureBucket dst, EvHead src key, EvHead dst key])
   \<and> ((\<forall>i j. i < j \<and> j < n \<and> is_copied (fst (copy_runs E key src dst n s ! i)) \<longrightarrow>
          both_heads_equal E key src dst (snd (copy_runs E key src dst n s ! (j - 1)))) \<longrightarrow>
       length (filter is_copied (map fst (copy_runs E key src dst n s))) \<le> 1
       \<and> (\<forall>i j. i < j \<and> j < n \<and> is_copied (fst (copy_runs E key src dst n s ! i)) \<longrightarrow>
            fst (copy_runs E key src dst n s ! j) = Inr Noop))"
proof (intro conjI impI)
  assume "both_heads_equal E key src dst s"
  then show "fst (ensure_and_copy_once E key src dst s) = Inr Noop"
    and "filter is_put (trace (snd (ensure_and_copy_once E key src dst s))) =
          filter is_put (trace s)"
    and "trace (snd (ensure_and_copy_once E key src dst s)) =
          trace (chaos_delay E s) @
            [EvEnsureBucket src, EvEnsureBucket dst, EvHead src key, EvHead dst key]"
    by (rule both_heads_equal_noop)+
next
  define rs where "rs = copy_runs E key src dst n s"
  assume h: "\<forall>i j. i < j \<and> j < n \<and> is_copied (fst (copy_runs E key src dst n s ! i)) \<longrightarrow>
          both_heads_equal E key src dst (snd (copy_runs E key src dst n s ! (j - 1)))"
  have later: "fst (rs ! j) = Inr Noop" if "i < j" "j < n" "is_copied (fst (rs ! i))" for i j
  proof -
    from h that have "both_heads_equal E key src dst (snd (rs ! (j - 1)))"
      by (auto simp: rs_def)
    from both_heads_equal_noop(1)[OF this] that(1,2) show ?thesis
      using copy_runs_nth[of j n E key src dst s] by (simp add: rs_def)
  qed
  then show "\<forall>i j. i < j \<and> j < n \<and> is_copied (fst (copy_runs E key src dst n s ! i)) \<longrightarrow>
            fst (copy_runs E key src dst n s ! j) = Inr Noop"
    by (auto simp: rs_def)
  have "length (filter is_copied (map fst rs)) \<le> 1"
  proof (rule at_most_one)
    fix i j
    assume "i < j" "j < length (map fst rs)" "is_copied (map fst rs ! i)"
    then have "fst (rs ! j) = Inr Noop"
      using later[of i j] by (simp add: rs_def)
    then show "\<not> is_copied (map fst rs ! j)"
      using \<open>j < length (map fst rs)\<close> by simp
  qed
  then show "length (filter is_copied (map fst (copy_runs E key src dst n s))) \<le> 1"
    by (simp add: rs_def)
qed

theorem copy_once_idempotent_witness:
  "map fst (copy_runs sim_env ''a/b'' ''s1'' ''s2'' 2
      (sim_start (sim_world
         [Done, Done, head_reply (quoted ''E1'') 100 0, Raise not_found,
          head_reply (quoted ''E1'') 100 0, BodyReply ''data'', Done,
          Done, Done, head_reply (quoted ''E1'') 100 0, head_reply (quoted ''E1'') 100 0]))) =
     [Inr (Copied 100 ''0123456789abcdef0123456789abcdef''), Inr Noop]
   \<and> both_heads_equal sim_env ''a/b'' ''s1'' ''s2''
       (sim_at [Done, Done, head_reply (quoted ''E1'') 100 0, head_reply (quoted ''E1'') 100 0]
          [EvEnsureBucket ''s1'', EvEnsureBucket ''s2'', EvHead ''s1'' ''a/b'',
           EvHead ''s2'' ''a/b'', EvHead ''s1'' ''a/b'', EvGet ''s1'' ''a/b'',
           EvPut ''s2'' ''a/b'' ''data''])
   \<and> length (filter is_copied (map fst (copy_runs sim_env ''a/b'' ''s1'' ''s2'' 2
      (sim_start (sim_world
         [Done, Done, head_reply (quoted ''E1'') 100 0, Raise not_found,
          head_reply (quoted ''E1'') 100 0, BodyReply ''data'', Done,
          Done, Done, head_reply (quoted ''E1'') 100 0, head_reply (quoted ''E1'') 100 0]))))) \<le> 1"
proof -
  define s0 where "s0 = sim_start (sim_world
         [Done, Done, head_reply (quoted ''E1'') 100 0, Raise not_found,
          head_reply (quoted ''E1'') 100 0, BodyReply ''data'', Done,
          Done, Done, head_reply (quoted ''E1'') 100 0, head_reply (quoted ''E1'') 100 0])"
  define s1 where "s1 = sim_at
         [Done, Done, head_reply (quoted ''E1'') 100 0, head_reply (quoted ''E1'') 100 0]
          [EvEnsureBucket ''s1'', EvEnsureBucket ''s2'', EvHead ''s1'' ''a/b'',
           EvHead ''s2'' ''a/b'', EvHead ''s1'' ''a/b'', EvGet ''s1'' ''a/b'',
           EvPut ''s2'' ''a/b'' ''data'']"
  have r1: "ensure_and_copy_once sim_env ''a/b'' ''s1'' ''s2'' s0 =
      (Inr (Copied 100 ''0123456789abcdef0123456789abcdef''), s1)"
    by (simp add: s0_def s1_def copy_defs io_defs sim_defs sim_at_def upt_rec)
  have eq: "both_heads_equal sim_env ''a/b'' ''s1'' ''s2'' s1"
    by (simp add: s1_def both_heads_equal_def copy_defs io_defs sim_defs sim_at_def)
  have runs: "copy_runs sim_env ''a/b'' ''s1'' ''s2'' 2 s0 =
      [(Inr (Copied 100 ''0123456789abcdef0123456789abcdef''), s1),
       ensure_and_copy_once sim_env ''a/b'' ''s1'' ''s2'' s1]"
    by (simp add: numeral_2_eq_2 r1)
  have hyp: "\<forall>i j. i < j \<and> j < 2
        \<and> is_copied (fst (copy_runs sim_env ''a/b'' ''s1'' ''s2'' 2 s0 ! i)) \<longrightarrow>
      both_heads_equal sim_env ''a/b'' ''s1'' ''s2''
        (snd (copy_runs sim_env ''a/b'' ''s1'' ''s2'' 2 s0 ! (j - 1)))"
  proof (intro allI impI)
    fix i j :: nat
    assume "i < j \<and> j < 2
        \<and> is_copied (fst (copy_runs sim_env ''a/b'' ''s1'' ''s2'' 2 s0 ! i))"
    then have "j = 1" by simp
    then show "both_heads_equal sim_env ''a/b'' ''s1'' ''s2''
        (snd (copy_runs sim_env ''a/b'' ''s1'' ''s2'' 2 s0 ! (j - 1)))"
      by (simp add: runs eq)
  qed
  note inst = copy_once_idempotent[where E = sim_env and key = "''a/b''" and src = "''s1''"
      and dst = "''s2''" and n = 2]
  from inst[where s = s1] eq
  have n: "fst (ensure_and_copy_once sim_env ''a/b'' ''s1'' ''s2'' s1) = Inr Noop"
    by blast
  from inst[where s = s0] hyp have
    "length (filter is_copied (map fst (copy_runs sim_env ''a/b'' ''s1'' ''s2'' 2 s0))) \<le> 1"
    by blast
  with n eq runs show ?thesis
    by (simp add: s0_def s1_def)
qed

text \<open>
  C5, as the claim states it, fails: a source whose HEAD reports size 0 and a
  destination whose HEAD reports the same etag and size 0 give \<^verbatim>\<open>noop\<close>, not
  \<^verbatim>\<open>{skipped, empty_source}\<close>, and the processor marks the task \<^verbatim>\<open>done\<close>.
\<close>

theorem empty_source_counterexample:
  "fst (ensure_and_copy_once sim_env ''a/b'' ''s1'' ''s2''
          (sim_start (sim_world
             [Done, Done, head_reply (quoted ''E0'') 0 0, head_reply (quoted ''E0'') 0 0]))) =
     Inr Noop
   \<and> fst (ensure_and_copy_once sim_env ''a/b'' ''s1'' ''s2''
          (sim_start (sim_world
             [Done, Done, head_reply (quoted ''E0'') 0 0, head_reply (quoted ''E0'') 0 0]))) \<noteq>
     Inr (Skipped ''empty_source'')
   \<and> map task_status (tasks (snd (process_queue_once sim_env
        (sim_sys [sim_task 1 ''queued'' None]
           (sim_world
              [Done, Done, head_reply (quoted ''E0'') 0 0, head_reply (quoted ''E0'') 0 0]))))) =
     [''done'']"
  by (simp add: process_queue_once_def claim_next_def ready_def copy_phase_def settle_def
        save_task_def inc_jobs_total_def copy_defs io_defs sim_defs)

text \<open>
  C5, amended. Take a call of \<^verbatim>\<open>_ensure_and_copy_once\<close> that gets both HEADs answered,
  the source present. When the source HEAD reports size 0 the call never returns
  \<^verbatim>\<open>copied\<close> and issues no PUT: it returns \<^verbatim>\<open>{skipped, empty_source}\<close>, unless the
  destination HEAD reports the same etag and size, where the check made first gives
  \<^verbatim>\<open>noop\<close>. When the two sides differ, the size is not 0, and the second HEAD of the
  source reports a \<^verbatim>\<open>LastModified\<close> less than 5 seconds before the current time, the
  call returns \<^verbatim>\<open>{skipped, file_growing}\<close> and issues no PUT. A task whose copy
  returns \<^verbatim>\<open>skipped\<close> is not marked \<^verbatim>\<open>done\<close>: if its row stays, it is \<^verbatim>\<open>queued\<close>.
\<close>

theorem copy_guards:
  assumes "\<not> (is_encryption_enforced E (world s) \<and> \<not> endpoint_is_encrypted E (world s) dst)"
    and "io_ensure_bucket E src (chaos_delay E s) = (Inr ua, sa)"
    and "io_ensure_bucket E dst sa = (Inr ub, sb)"
    and "head_meta E src key sb = (Inr (Some sm), sc)"
    and "head_meta E dst key sc = (Inr dm, sd)"
  shows
    "(meta_size sm = 0 \<longrightarrow>
        ensure_and_copy_once E key src dst s =
          (if same_object (Some sm) dm then Inr Noop else Inr (Skipped ''empty_source''), sd)
        \<and> \<not> is_copied (fst (ensure_and_copy_once E key src dst s))
        \<and> filter is_put (trace sd) = filter is_put (trace s))
     \<and> (\<not> same_object (Some sm) dm \<and> meta_size sm \<noteq> 0
          \<and> io_head_object E src key sd = (Inr h, se) \<and> LastModified h = Some lm
          \<and> clock_now E (world se) - lm < 5000000 \<longrightarrow>
        ensure_and_copy_once E key src dst s = (Inr (Skipped ''file_growing''), se)
        \<and> filter is_put (trace se) = filter is_put (trace s))
     \<and> (claim_next (tasks S) = Some t \<and> task_status t \<in> {''queued'', ''failed''}
          \<and> fst (ensure_and_copy_once E (task_key t) (task_src t) (task_dst t) (io S)) =
              Inr (Skipped reason) \<longrightarrow>
        (\<forall>u\<in>set (tasks (snd (process_queue_once E S))).
            task_id u = task_id t \<longrightarrow> task_status u = ''queued''))"
proof (intro conjI impI)
  note reach = copy_reaches_heads(1)[OF assms]
  note puts = heads_no_put[OF assms(2-5)]
  {
    assume z: "meta_size sm = 0"
    then show r: "ensure_and_copy_once E key src dst s =
          (if same_object (Some sm) dm then Inr Noop else Inr (Skipped ''empty_source''), sd)"
      by (simp add: reach copy_after_heads_def)
    then show "\<not> is_copied (fst (ensure_and_copy_once E key src dst s))"
      by simp
    show "filter is_put (trace sd) = filter is_put (trace s)"
      by (rule puts)
  }
  {
    assume g: "\<not> same_object (Some sm) dm \<and> meta_size sm \<noteq> 0
          \<and> io_head_object E src key sd = (Inr h, se) \<and> LastModified h = Some lm
          \<and> clock_now E (world se) - lm < 5000000"
    then show "ensure_and_copy_once E key src dst s = (Inr (Skipped ''file_growing''), se)"
      by (simp add: reach copy_after_heads_def file_growing_def)
    from g have "trace se = trace sd @ [EvHead src key]"
      by (auto dest: io_head_object_trace)
    then show "filter is_put (trace se) = filter is_put (trace s)"
      by (simp add: puts)
  }
  {
    assume k: "claim_next (tasks S) = Some t \<and> task_status t \<in> {''queued'', ''failed''}
          \<and> fst (ensure_and_copy_once E (task_key t) (task_src t) (task_dst t) (io S)) =
              Inr (Skipped reason)"
    then have f: "tick_fails E S t"
      by (auto simp: tick_fails_def)
    have p: "process_queue_once E S =
        (fst (process_queue_once E S), snd (process_queue_once E S))"
      by simp
    from k have c: "claim_next (tasks S) = Some t" by simp
    from k have q: "task_status t \<noteq> ''cleanup''" by auto
    from failed_tick_tasks[OF c f p] q obtain err where
      ts: "tasks (snd (process_queue_once E S)) =
        (if MAX_ATTEMPTS \<le> (case task_attempts t of None \<Rightarrow> 0 | Some n \<Rightarrow> n) + 1
         then delete_task t (tasks S)
         else save_task (t\<lparr>task_status := ''queued'',
                task_attempts := Some ((case task_attempts t of None \<Rightarrow> 0 | Some n \<Rightarrow> n) + 1),
                task_error := err\<rparr>) (tasks S))"
      by (auto cong: if_cong)
    show "\<forall>u\<in>set (tasks (snd (process_queue_once E S))).
            task_id u = task_id t \<longrightarrow> task_status u = ''queued''"
    proof (intro ballI impI)
      fix u
      assume u: "u \<in> set (tasks (snd (process_queue_once E S)))" and i: "task_id u = task_id t"
      show "task_status u = ''queued''"
      proof (cases "MAX_ATTEMPTS \<le> (case task_attempts t of None \<Rightarrow> 0 | Some n \<Rightarrow> n) + 1")
        case True
        with ts u have "u \<in> set (delete_task t (tasks S))" by simp
        from delete_task_gone[OF this] i show ?thesis by simp
      next
        case False
        with ts u have "u \<in> set (save_task (t\<lparr>task_status := ''queued'',
                task_attempts := Some ((case task_attempts t of None \<Rightarrow> 0 | Some n \<Rightarrow> n) + 1),
                task_error := err\<rparr>) (tasks S))" by simp
        from save_task_row[OF this] i have "u = t\<lparr>task_status := ''queued'',
                task_attempts := Some ((case task_attempts t of None \<Rightarrow> 0 | Some n \<Rightarrow> n) + 1),
                task_error := err\<rparr>" by simp
        then show ?thesis by simp
      qed
    qed
  }
qed

theorem copy_guards_witness:
  "ensure_and_copy_once sim_env ''a/b'' ''s1'' ''s2''
       (sim_start (sim_world [Done, Done, head_reply (quoted ''E0'') 0 0, Raise not_found])) =
     (Inr (Skipped ''empty_source''),
      sim_at [] [EvEnsureBucket ''s1'', EvEnsureBucket ''s2'', EvHead ''s1'' ''a/b'',
                 EvHead ''s2'' ''a/b''])
   \<and> ensure_and_copy_once sim_env ''a/b'' ''s1'' ''s2''
       (sim_start (sim_world [Done, Done, head_reply (quoted ''E1'') 100 999000000,
          Raise not_found, head_reply (quoted ''E1'') 100 999000000])) =
     (Inr (Skipped ''file_growing''),
      sim_at [] [EvEnsureBucket ''s1'', EvEnsureBucket ''s2'', EvHead ''s1'' ''a/b'',
                 EvHead ''s2'' ''a/b'', EvHead ''s1'' ''a/b''])
   \<and> map task_status (tasks (snd (process_queue_once sim_env
        (sim_sys [sim_task 1 ''queued'' None]
           (sim_world [Done, Done, head_reply (quoted ''E0'') 0 0, Raise not_found]))))) =
     [''queued'']"
proof -
  define ev4 where "ev4 = [EvEnsureBucket ''s1'', EvEnsureBucket ''s2'', EvHead ''s1'' ''a/b'',
                 EvHead ''s2'' ''a/b'']"
  define w1 where "w1 = [Done, Done, head_reply (quoted ''E0'') 0 0, Raise not_found]"
  define w2 where "w2 = [Done, Done, head_reply (quoted ''E1'') 100 999000000,
          Raise not_found, head_reply (quoted ''E1'') 100 999000000]"
  define t where "t = sim_task 1 ''queued'' None"
  define S where "S = sim_sys [t] (sim_world w1)"
  have gate: "\<not> (is_encryption_enforced sim_env (world (sim_start (sim_world w)))
      \<and> \<not> endpoint_is_encrypted sim_env (world (sim_start (sim_world w))) ''s2'')" for w
    by (simp add: sim_defs)
  have a1: "io_ensure_bucket sim_env ''s1'' (chaos_delay sim_env (sim_start (sim_world w1))) =
      (Inr (), sim_at (drop 1 w1) (take 1 ev4))"
    and a2: "io_ensure_bucket sim_env ''s2'' (sim_at (drop 1 w1) (take 1 ev4)) =
      (Inr (), sim_at (drop 2 w1) (take 2 ev4))"
    and a3: "head_meta sim_env ''s1'' ''a/b'' (sim_at (drop 2 w1) (take 2 ev4)) =
      (Inr (Some \<lparr>meta_etag = ''E0'', meta_size = 0\<rparr>), sim_at (drop 3 w1) (take 3 ev4))"
    and a4: "head_meta sim_env ''s2'' ''a/b'' (sim_at (drop 3 w1) (take 3 ev4)) =
      (Inr None, sim_at [] ev4)"
    by (simp_all add: w1_def ev4_def copy_defs io_defs sim_defs sim_at_def)
  have b1: "io_ensure_bucket sim_env ''s1'' (chaos_delay sim_env (sim_start (sim_world w2))) =
      (Inr (), sim_at (drop 1 w2) (take 1 ev4))"
    and b2: "io_ensure_bucket sim_env ''s2'' (sim_at (drop 1 w2) (take 1 ev4)) =
      (Inr (), sim_at (drop 2 w2) (take 2 ev4))"
    and b3: "head_meta sim_env ''s1'' ''a/b'' (sim_at (drop 2 w2) (take 2 ev4)) =
      (Inr (Some \<lparr>meta_etag = ''E1'', meta_size = 100\<rparr>), sim_at (drop 3 w2) (take 3 ev4))"
    and b4: "head_meta sim_env ''s2'' ''a/b'' (sim_at (drop 3 w2) (take 3 ev4)) =
      (Inr None, sim_at (drop 4 w2) ev4)"
    and b5: "io_head_object sim_env ''s1'' ''a/b'' (sim_at (drop 4 w2) ev4) =
      (Inr \<lparr>ETag = Some (quoted ''E1''), ContentLength = Some 100,
             LastModified = Some 999000000\<rparr>,
       sim_at [] (ev4 @ [EvHead ''s1'' ''a/b'']))"
    and b6: "clock_now sim_env (world (sim_at [] (ev4 @ [EvHead ''s1'' ''a/b'']))) - 999000000
      < 5000000"
    by (simp_all add: w2_def ev4_def copy_defs io_defs sim_defs sim_at_def)
  from copy_guards[OF gate a1 a2 a3 a4]
  have r1: "ensure_and_copy_once sim_env ''a/b'' ''s1'' ''s2'' (sim_start (sim_world w1)) =
      (Inr (Skipped ''empty_source''), sim_at [] ev4)"
    by (simp add: same_object_def)
  from copy_guards[OF gate b1 b2 b3 b4, where h = "\<lparr>ETag = Some (quoted ''E1''),
      ContentLength = Some 100, LastModified = Some 999000000\<rparr>" and lm = 999000000
      and se = "sim_at [] (ev4 @ [EvHead ''s1'' ''a/b''])"] b5 b6
  have r2: "ensure_and_copy_once sim_env ''a/b'' ''s1'' ''s2'' (sim_start (sim_world w2)) =
      (Inr (Skipped ''file_growing''), sim_at [] (ev4 @ [EvHead ''s1'' ''a/b'']))"
    by (simp add: same_object_def)
  have c: "claim_next (tasks S) = Some t"
    by (simp add: S_def t_def claim_next_def ready_def sim_defs)
  have k: "fst (ensure_and_copy_once sim_env (task_key t) (task_src t) (task_dst t) (io S)) =
      Inr (Skipped ''empty_source'')"
    using r1 by (simp add: S_def t_def sim_sys_def sim_task_def)
  have q: "task_status t \<in> {''queued'', ''failed''}"
    by (simp add: t_def sim_task_def)
  have "tick_fails sim_env S t"
    using k by (simp add: tick_fails_def t_def sim_task_def)
  from failed_tick_tasks[OF c this prod.collapse[symmetric]]
  obtain err where ts: "tasks (snd (process_queue_once sim_env S)) =
      [t\<lparr>task_status := ''queued'', task_attempts := Some 1, task_error := err\<rparr>]"
    by (auto simp: S_def t_def sim_sys_def sim_task_def save_task_def MAX_ATTEMPTS_def)
  from copy_guards[OF gate a1 a2 a3 a4, where S = S and t = t and reason = "''empty_source''"]
    c q k
  have "\<forall>u\<in>set (tasks (snd (process_queue_once sim_env S))).
      task_id u = task_id t \<longrightarrow> task_status u = ''queued''"
    by blast
  with ts have r3: "map task_status (tasks (snd (process_queue_once sim_env S))) = [''queued'']"
    by simp
  from r1 r2 r3 show ?thesis
    by (simp add: w1_def w2_def ev4_def S_def t_def)
qed

text \<open>
  C10: take a call of \<^verbatim>\<open>_ensure_and_copy_once\<close> that reaches the growing-file check (both
  HEADs answered, the source present, the two sides different, the size not 0). If the
  second HEAD of the source raises, whatever the exception, the call goes on with the
  retry loop from the state the failed HEAD left: its result is the loop's, it is never
  \<^verbatim>\<open>skipped\<close> or \<^verbatim>\<open>failed\<close>, and when the first GET and PUT succeed it is \<^verbatim>\<open>copied\<close>.
\<close>

theorem growing_probe_error_swallowed:
  assumes "\<not> (is_encryption_enforced E (world s) \<and> \<not> endpoint_is_encrypted E (world s) dst)"
    and "io_ensure_bucket E src (chaos_delay E s) = (Inr ua, sa)"
    and "io_ensure_bucket E dst sa = (Inr ub, sb)"
    and "head_meta E src key sb = (Inr (Some sm), sc)"
    and "head_meta E dst key sc = (Inr dm, sd)"
    and "\<not> same_object (Some sm) dm"
    and "meta_size sm \<noteq> 0"
    and "io_head_object E src key sd = (Inl e, se)"
  shows "ensure_and_copy_once E key src dst s =
           copy_loop E key src dst sm [0..<max_retries + 1] 1 se
    \<and> (\<forall>reason. fst (ensure_and_copy_once E key src dst s) \<noteq> Inr (Skipped reason))
    \<and> (\<forall>err. fst (ensure_and_copy_once E key src dst s) \<noteq> Inr (Failed err))
    \<and> (io_get_object E src key se = (Inr body, sf)
         \<and> io_put_object E dst key body sf = (Inr uc, sg) \<longrightarrow>
       ensure_and_copy_once E key src dst s =
         (Inr (Copied (meta_size sm) (fst (io_uuid4_hex E sg))), snd (io_uuid4_hex E sg)))"
proof -
  have r: "ensure_and_copy_once E key src dst s =
           copy_loop E key src dst sm [0..<max_retries + 1] 1 se"
    using assms(6-8)
    by (simp add: copy_reaches_heads(1)[OF assms(1-5)] copy_after_heads_def file_growing_def)
  have nf: "fst (copy_loop E key src dst sm [0..<max_retries + 1] 1 se) \<noteq> Inr (Failed err)" for err
    by (rule copy_loop_never_failed)
  have ns: "fst (copy_loop E key src dst sm [0..<max_retries + 1] 1 se) \<noteq> Inr (Skipped reason)"
    for reason
  proof
    assume "fst (copy_loop E key src dst sm [0..<max_retries + 1] 1 se) = Inr (Skipped reason)"
    then have "copy_loop E key src dst sm [0..<max_retries + 1] 1 se =
        (Inr (Skipped reason), snd (copy_loop E key src dst sm [0..<max_retries + 1] 1 se))"
      by (metis prod.collapse)
    from copy_loop_result[OF this] show False by simp
  qed
  have ok: "io_get_object E src key se = (Inr body, sf)
         \<and> io_put_object E dst key body sf = (Inr uc, sg) \<longrightarrow>
       copy_loop E key src dst sm [0..<max_retries + 1] 1 se =
         (Inr (Copied (meta_size sm) (fst (io_uuid4_hex E sg))), snd (io_uuid4_hex E sg))"
    by (simp add: upt_rec max_retries_def try_copy_def split: prod.splits)
  from r nf ns ok show ?thesis by simp
qed

theorem growing_probe_error_swallowed_witness:
  "ensure_and_copy_once sim_env ''a/b'' ''s1'' ''s2''
       (sim_start (sim_world [Done, Done, head_reply (quoted ''E1'') 100 0, Raise not_found,
          Raise (OtherException ''timed out''), BodyReply ''data'', Done])) =
     (Inr (Copied 100 ''0123456789abcdef0123456789abcdef''),
      sim_at [] [EvEnsureBucket ''s1'', EvEnsureBucket ''s2'', EvHead ''s1'' ''a/b'',
                 EvHead ''s2'' ''a/b'', EvHead ''s1'' ''a/b'', EvGet ''s1'' ''a/b'',
                 EvPut ''s2'' ''a/b'' ''data''])"
proof -
  define ev4 where "ev4 = [EvEnsureBucket ''s1'', EvEnsureBucket ''s2'', EvHead ''s1'' ''a/b'',
                 EvHead ''s2'' ''a/b'']"
  define w where "w = [Done, Done, head_reply (quoted ''E1'') 100 0, Raise not_found,
          Raise (OtherException ''timed out''), BodyReply ''data'', Done]"
  have gate: "\<not> (is_encryption_enforced sim_env (world (sim_start (sim_world w)))
      \<and> \<not> endpoint_is_encrypted sim_env (world (sim_start (sim_world w))) ''s2'')"
    by (simp add: sim_defs)
  have a1: "io_ensure_bucket sim_env ''s1'' (chaos_delay sim_env (sim_start (sim_world w))) =
      (Inr (), sim_at (drop 1 w) (take 1 ev4))"
    and a2: "io_ensure_bucket sim_env ''s2'' (sim_at (drop 1 w) (take 1 ev4)) =
      (Inr (), sim_at (drop 2 w) (take 2 ev4))"
    and a3: "head_meta sim_env ''s1'' ''a/b'' (sim_at (drop 2 w) (take 2 ev4)) =
      (Inr (Some \<lparr>meta_etag = ''E1'', meta_size = 100\<rparr>), sim_at (drop 3 w) (take 3 ev4))"
    and a4: "head_meta sim_env ''s2'' ''a/b'' (sim_at (drop 3 w) (take 3 ev4)) =
      (Inr None, sim_at (drop 4 w) ev4)"
    and a5: "\<not> same_object (Some \<lparr>meta_etag = ''E1'', meta_size = 100\<rparr>) None"
    and a6: "meta_size \<lparr>meta_etag = ''E1'', meta_size = 100\<rparr> \<noteq> 0"
    and a7: "io_head_object sim_env ''s1'' ''a/b'' (sim_at (drop 4 w) ev4) =
      (Inl (OtherException ''timed out''), sim_at (drop 5 w) (ev4 @ [EvHead ''s1'' ''a/b'']))"
    and a8: "io_get_object sim_env ''s1'' ''a/b'' (sim_at (drop 5 w) (ev4 @ [EvHead ''s1'' ''a/b''])) =
      (Inr ''data'', sim_at (drop 6 w) (ev4 @ [EvHead ''s1'' ''a/b'', EvGet ''s1'' ''a/b'']))"
    and a9: "io_put_object sim_env ''s2'' ''a/b'' ''data''
        (sim_at (drop 6 w) (ev4 @ [EvHead ''s1'' ''a/b'', EvGet ''s1'' ''a/b''])) =
      (Inr (), sim_at [] (ev4 @ [EvHead ''s1'' ''a/b'', EvGet ''s1'' ''a/b'',
         EvPut ''s2'' ''a/b'' ''data'']))"
    by (simp_all add: w_def ev4_def copy_defs io_defs sim_defs sim_at_def)
  have a10: "io_uuid4_hex sim_env (sim_at [] (ev4 @ [EvHead ''s1'' ''a/b'', EvGet ''s1'' ''a/b'',
         EvPut ''s2'' ''a/b'' ''data''])) =
      (''0123456789abcdef0123456789abcdef'',
       sim_at [] (ev4 @ [EvHead ''s1'' ''a/b'', EvGet ''s1'' ''a/b'',
         EvPut ''s2'' ''a/b'' ''data'']))"
    by (simp add: io_uuid4_hex_def sim_env_def sim_at_def)
  from growing_probe_error_swallowed[OF gate a1 a2 a3 a4 a5 a6 a7, where body = "''data''"
      and sf = "sim_at (drop 6 w) (ev4 @ [EvHead ''s1'' ''a/b'', EvGet ''s1'' ''a/b''])"
      and uc = "()" and sg = "sim_at [] (ev4 @ [EvHead ''s1'' ''a/b'', EvGet ''s1'' ''a/b'',
         EvPut ''s2'' ''a/b'' ''data''])"] a8 a9
  have "ensure_and_copy_once sim_env ''a/b'' ''s1'' ''s2'' (sim_start (sim_world w)) =
     (Inr (Copied (meta_size \<lparr>meta_etag = ''E1'', meta_size = 100\<rparr>)
        (fst (io_uuid4_hex sim_env (sim_at [] (ev4 @ [EvHead ''s1'' ''a/b'', EvGet ''s1'' ''a/b'',
         EvPut ''s2'' ''a/b'' ''data'']))))),
      snd (io_uuid4_hex sim_env (sim_at [] (ev4 @ [EvHead ''s1'' ''a/b'', EvGet ''s1'' ''a/b'',
         EvPut ''s2'' ''a/b'' ''data'']))))"
    by blast
  then have "ensure_and_copy_once sim_env ''a/b'' ''s1'' ''s2'' (sim_start (sim_world w)) =
     (Inr (Copied 100 ''0123456789abcdef0123456789abcdef''),
      sim_at [] (ev4 @ [EvHead ''s1'' ''a/b'', EvGet ''s1'' ''a/b'',
         EvPut ''s2'' ''a/b'' ''data'']))"
    by (simp add: a10)
  then show ?thesis by (simp add: w_def ev4_def)
qed

text \<open>
  C1: when each of the four tries of the retry loop raises a client error with a
  throttling code, the loop sleeps 1, 2 and 4 seconds between them and the fourth error
  is raised: the call does not return \<^verbatim>\<open>{failed, max_retries_exceeded}\<close>. No run of the
  loop returns it: the statement after the loop is never reached.
\<close>

theorem throttled_tries_raise:
  assumes "try_copy E key src dst sm s = (Inl (ClientError ca ma), sa)"
    and "throttling_code ca"
    and "try_copy E key src dst sm (io_sleep E 1000 sa) = (Inl (ClientError cb mb), sb)"
    and "throttling_code cb"
    and "try_copy E key src dst sm (io_sleep E 2000 sb) = (Inl (ClientError cc mc), sc)"
    and "throttling_code cc"
    and "try_copy E key src dst sm (io_sleep E 4000 sc) = (Inl (ClientError cd md), sd)"
    and "throttling_code cd"
  shows "copy_loop E key src dst sm [0..<max_retries + 1] 1 s = (Inl (ClientError cd md), sd)
    \<and> fst (copy_loop E key src dst sm [0..<max_retries + 1] 1 s) \<noteq>
        Inr (Failed ''max_retries_exceeded'')"
proof -
  have u: "[0..<max_retries + 1] = [0, 1, 2, 3]"
    by (simp add: max_retries_def upt_rec)
  have "copy_loop E key src dst sm [0, 1, 2, 3] 1 s = (Inl (ClientError cd md), sd)"
    using assms by (simp add: max_retries_def)
  then show ?thesis unfolding u by simp
qed

theorem throttled_tries_raise_witness:
  "ensure_and_copy_once sim_env ''a/b'' ''s1'' ''s2''
       (sim_start (sim_world [Done, Done, head_reply (quoted ''E1'') 100 0, Raise not_found,
          head_reply (quoted ''E1'') 100 0,
          Raise slow_down, Raise slow_down, Raise slow_down, Raise slow_down])) =
     (Inl slow_down,
      \<lparr>world = sim_world []\<lparr>sim_clock := 1007000000\<rparr>,
       trace = [EvEnsureBucket ''s1'', EvEnsureBucket ''s2'', EvHead ''s1'' ''a/b'',
                EvHead ''s2'' ''a/b'', EvHead ''s1'' ''a/b'',
                EvGet ''s1'' ''a/b'', EvSleep 1000, EvGet ''s1'' ''a/b'', EvSleep 2000,
                EvGet ''s1'' ''a/b'', EvSleep 4000, EvGet ''s1'' ''a/b'']\<rparr>)
   \<and> map task_status (tasks (snd (process_queue_once sim_env
        (sim_sys [sim_task 1 ''queued'' None]
           (sim_world [Done, Done, head_reply (quoted ''E1'') 100 0, Raise not_found,
              head_reply (quoted ''E1'') 100 0,
              Raise slow_down, Raise slow_down, Raise slow_down, Raise slow_down]))))) =
     [''queued'']
   \<and> jobs_total (snd (process_queue_once sim_env
        (sim_sys [sim_task 1 ''queued'' None]
           (sim_world [Done, Done, head_reply (quoted ''E1'') 100 0, Raise not_found,
              head_reply (quoted ''E1'') 100 0,
              Raise slow_down, Raise slow_down, Raise slow_down, Raise slow_down]))))
        ''error'' = 1"
proof -
  define ev5 where "ev5 = [EvEnsureBucket ''s1'', EvEnsureBucket ''s2'', EvHead ''s1'' ''a/b'',
                 EvHead ''s2'' ''a/b'', EvHead ''s1'' ''a/b'']"
  define w where "w = [Done, Done, head_reply (quoted ''E1'') 100 0, Raise not_found,
          head_reply (quoted ''E1'') 100 0,
          Raise slow_down, Raise slow_down, Raise slow_down, Raise slow_down]"
  define sm where "sm = \<lparr>meta_etag = ''E1'', meta_size = 100\<rparr>"
  define st where "st = (\<lambda>rs c evs.
      \<lparr>world = sim_world rs\<lparr>sim_clock := c\<rparr>, trace = ev5 @ evs\<rparr>)"
  have reach: "ensure_and_copy_once sim_env ''a/b'' ''s1'' ''s2'' (sim_start (sim_world w)) =
      copy_loop sim_env ''a/b'' ''s1'' ''s2'' sm [0..<max_retries + 1] 1
        (st (drop 5 w) 1000000000 [])"
    by (simp add: w_def ev5_def sm_def st_def ensure_and_copy_once_def copy_after_heads_def
          file_growing_def chaos_delay_def get_latency_def head_meta_def same_object_def
          not_found_code_def LATENCY_KEY_def strip_quotes_def is_quote_def io_defs sim_defs)
  have t1: "try_copy sim_env ''a/b'' ''s1'' ''s2'' sm (st (drop 5 w) 1000000000 []) =
      (Inl (ClientError (Some ''SlowDown'') ''Please reduce your request rate.''),
       st (drop 6 w) 1000000000 [EvGet ''s1'' ''a/b''])"
    and t2: "try_copy sim_env ''a/b'' ''s1'' ''s2'' sm
        (io_sleep sim_env 1000 (st (drop 6 w) 1000000000 [EvGet ''s1'' ''a/b''])) =
      (Inl (ClientError (Some ''SlowDown'') ''Please reduce your request rate.''),
       st (drop 7 w) 1001000000 [EvGet ''s1'' ''a/b'', EvSleep 1000, EvGet ''s1'' ''a/b''])"
    and t3: "try_copy sim_env ''a/b'' ''s1'' ''s2'' sm
        (io_sleep sim_env 2000
           (st (drop 7 w) 1001000000 [EvGet ''s1'' ''a/b'', EvSleep 1000, EvGet ''s1'' ''a/b''])) =
      (Inl (ClientError (Some ''SlowDown'') ''Please reduce your request rate.''),
       st (drop 8 w) 1003000000 [EvGet ''s1'' ''a/b'', EvSleep 1000, EvGet ''s1'' ''a/b'',
          EvSleep 2000, EvGet ''s1'' ''a/b''])"
    and t4: "try_copy sim_env ''a/b'' ''s1'' ''s2'' sm
        (io_sleep sim_env 4000
           (st (drop 8 w) 1003000000 [EvGet ''s1'' ''a/b'', EvSleep 1000, EvGet ''s1'' ''a/b'',
              EvSleep 2000, EvGet ''s1'' ''a/b''])) =
      (Inl (ClientError (Some ''SlowDown'') ''Please reduce your request rate.''),
       st [] 1007000000 [EvGet ''s1'' ''a/b'', EvSleep 1000, EvGet ''s1'' ''a/b'',
          EvSleep 2000, EvGet ''s1'' ''a/b'', EvSleep 4000, EvGet ''s1'' ''a/b''])"
    by (simp_all add: w_def st_def try_copy_def io_defs sim_defs)
  have th: "throttling_code (Some ''SlowDown'')"
    by (simp add: throttling_code_def)
  from throttled_tries_raise[OF t1 th t2 th t3 th t4 th] reach
  have r: "ensure_and_copy_once sim_env ''a/b'' ''s1'' ''s2'' (sim_start (sim_world w)) =
      (Inl slow_down, st [] 1007000000 [EvGet ''s1'' ''a/b'', EvSleep 1000, EvGet ''s1'' ''a/b'',
          EvSleep 2000, EvGet ''s1'' ''a/b'', EvSleep 4000, EvGet ''s1'' ''a/b''])"
    by (simp add: slow_down_def)
  have p: "map task_status (tasks (snd (process_queue_once sim_env
        (sim_sys [sim_task 1 ''queued'' None] (sim_world w))))) = [''queued'']
      \<and> jobs_total (snd (process_queue_once sim_env
        (sim_sys [sim_task 1 ''queued'' None] (sim_world w)))) ''error'' = 1"
    using r
    by (simp add: process_queue_once_def claim_next_def ready_def copy_phase_def settle_def
          save_task_def inc_jobs_total_def MAX_ATTEMPTS_def sim_sys_def sim_task_def slow_down_def)
  from r p show ?thesis
    by (simp add: w_def st_def ev5_def sim_world_def)
qed


end
